theory Spec2Isabelle
  imports Main "HOL-Library.Multiset"
begin

section \<open>JavaScript values used by the news aggregator\<close>

text \<open>
  A field of a provider payload or of an article is a JavaScript value that is either
  absent (\<open>undefined\<close>), \<open>null\<close>, or a string. The three are distinct keys of a
  JavaScript \<open>Set\<close> (SameValueZero), and the first two as well as the empty string are
  falsy.
\<close>

datatype jsstr = Undefined | Null | Str string

fun truthy :: "jsstr \<Rightarrow> bool" where
  "truthy (Str s) = (s \<noteq> [])"
| "truthy Undefined = False"
| "truthy Null = False"

text \<open>\<open>v || 'lit'\<close>: the literal replaces every falsy value.\<close>

definition orElse :: "jsstr \<Rightarrow> string \<Rightarrow> jsstr" where
  "orElse v lit = (if truthy v then v else Str lit)"

text \<open>A destructuring default \<open>{ content = '' }\<close>: the literal replaces \<open>undefined\<close> only.\<close>

fun orDefault :: "jsstr \<Rightarrow> string \<Rightarrow> jsstr" where
  "orDefault Undefined lit = Str lit"
| "orDefault v lit = v"

section \<open>models/Article.js\<close>

text \<open>
  \<open>publishedAt\<close> and \<open>createdAt\<close> are the time values (milliseconds since the epoch)
  of the \<open>Date\<close> objects the constructor builds. The constructor does not check
  \<open>new Date(publishedAt)\<close>: \<open>None\<close> is the Invalid Date it builds from a missing or
  unparseable \<open>publishedAt\<close>, whose time value is \<open>NaN\<close>. A payload carries what its
  \<open>publishedAt\<close> parses to. The identifier comes from \<open>Math.random()\<close> and the
  creation time from the clock, so both are arguments of the constructor here.
\<close>

record article =
  article_id :: string
  title :: jsstr
  description :: jsstr
  url :: jsstr
  urlToImage :: jsstr
  publishedAt :: "int option"
  source :: jsstr
  category :: string
  language :: jsstr
  content :: jsstr
  author :: jsstr
  createdAt :: int

text \<open>The raw item of a provider response (the union of the fields the two mappers read).\<close>

record raw =
  raw_title :: jsstr
  raw_description :: jsstr
  raw_url :: jsstr
  raw_urlToImage :: jsstr
  raw_image :: jsstr
  raw_publishedAt :: "int option"
  raw_sourceName :: jsstr
  raw_language :: jsstr
  raw_content :: jsstr
  raw_author :: jsstr

definition newArticle ::
  "string \<Rightarrow> int \<Rightarrow> jsstr \<Rightarrow> jsstr \<Rightarrow> jsstr \<Rightarrow> jsstr \<Rightarrow> int option \<Rightarrow> jsstr \<Rightarrow> string
     \<Rightarrow> jsstr \<Rightarrow> jsstr \<Rightarrow> jsstr \<Rightarrow> article" where
  "newArticle ident now t d u img pub src cat lang cont auth =
     \<lparr> article_id = ident, title = t, description = d, url = u, urlToImage = img,
       publishedAt = pub, source = src, category = cat, language = lang,
       content = orDefault cont [], author = orDefault auth [], createdAt = now \<rparr>"

definition fromNewsAPI :: "string \<Rightarrow> int \<Rightarrow> raw \<Rightarrow> string \<Rightarrow> article" where
  "fromNewsAPI ident now r cat =
     newArticle ident now (raw_title r) (raw_description r) (raw_url r) (raw_urlToImage r)
       (raw_publishedAt r) (orElse (raw_sourceName r) ''Unknown'') cat (Str ''en'')
       (raw_content r) (raw_author r)"

definition fromGNews :: "string \<Rightarrow> int \<Rightarrow> raw \<Rightarrow> string \<Rightarrow> article" where
  "fromGNews ident now r cat =
     newArticle ident now (raw_title r) (raw_description r) (raw_url r) (raw_image r)
       (raw_publishedAt r) (orElse (raw_sourceName r) ''Unknown'') cat
       (orElse (raw_language r) ''en'') (raw_content r) (Str [])"

section \<open>services/NewsService.js: deduplication\<close>

text \<open>
  \<open>removeDuplicates\<close> filters the list with a \<open>Set\<close> of the URLs seen so far;
  \<open>dedupFrom\<close> is that filter started from a given set.
\<close>

fun dedupFrom :: "jsstr set \<Rightarrow> article list \<Rightarrow> article list" where
  "dedupFrom seen [] = []"
| "dedupFrom seen (a # as) =
     (if url a \<in> seen then dedupFrom seen as
      else a # dedupFrom (insert (url a) seen) as)"

definition removeDuplicates :: "article list \<Rightarrow> article list" where
  "removeDuplicates articles = dedupFrom {} articles"

section \<open>config/config.js and the outside world\<close>

text \<open>
  What the configuration reads from the environment: the two provider keys (a string or
  absent) and \<open>parseInt(process.env.CACHE_TTL)\<close>, an integer or \<open>NaN\<close> (\<open>None\<close>, when
  the variable is unset or does not start with a number).
\<close>

record config =
  newsApiKey :: jsstr
  gnewsApiKey :: jsstr
  cacheTtlParsed :: "int option"

text \<open>
  \<open>config.cache.ttl\<close>, in seconds: \<open>parseInt(process.env.CACHE_TTL) || 3600\<close>. The
  default replaces \<open>NaN\<close> and 0; a negative number is truthy and is kept.
\<close>

definition cacheTtl :: "config \<Rightarrow> int" where
  "cacheTtl c =
     (case cacheTtlParsed c of
        None \<Rightarrow> 3600
      | Some s \<Rightarrow> if s = 0 then 3600 else s)"

datatype provider = NewsAPI | GNews

datatype endpoint = TopHeadlines | Everything | Search

text \<open>
  An HTTP request as \<open>axios.get\<close> receives it: the provider and path of the URL and the
  parameters \<open>category\<close> or \<open>q\<close>, \<open>language\<close> or \<open>lang\<close>, and \<open>pageSize\<close> or
  \<open>max\<close>.
\<close>

record request =
  host :: provider
  path :: endpoint
  subject :: string
  lang :: string
  amount :: int

text \<open>
  What the awaited call does: it throws (timeout, network error, status outside 2xx), or
  it returns a body. \<open>Body None\<close> is a body for which
  \<open>response.data && response.data.articles\<close> is falsy; \<open>Body (Some rs)\<close> carries the
  array \<open>response.data.articles\<close>. A truthy \<open>articles\<close> that cannot be filtered raises
  a TypeError inside the same \<open>try\<close> block and is therefore a \<open>Throws\<close> as well.
\<close>

datatype response = Throws | Body "raw list option"

text \<open>
  The environment of a run: the configuration, the providers (the answer to the
  \<open>n\<close>-th request of the run, with the milliseconds it takes), and the identifiers
  \<open>Article.generateId\<close> draws from \<open>Math.random()\<close> (the \<open>n\<close>-th one of the run).
\<close>

record env =
  cfg :: config
  respond :: "nat \<Rightarrow> request \<Rightarrow> nat \<times> response"
  random :: "nat \<Rightarrow> string"

text \<open>
  The mutable state of the service: the cache (each entry with its expiry time), the
  clock in milliseconds, the requests issued so far and the number of identifiers
  generated so far. The clock stands still during synchronous code and advances while a
  request is awaited.
\<close>

record world =
  cache :: "string \<Rightarrow> (article list \<times> int) option"
  clock :: int
  requests :: "request list"
  minted :: nat

subsection \<open>The cache\<close>

text \<open>
  Modelled from the spec: \<open>get\<close> of the cache, which is the third-party \<open>node-cache\<close>
  package and not among the sources. Section 4.2 and the data model of the specification
  give the contract: an entry carries the expiry time = insertion time + configured TTL,
  and \<open>get\<close> returns the value until the TTL has elapsed and absent afterwards, whether
  or not the entry has been physically removed. \<open>get\<close> therefore leaves the entry in
  place here.
\<close>

definition cache_get :: "world \<Rightarrow> string \<Rightarrow> article list option" where
  "cache_get w k =
     (case cache w k of
        None \<Rightarrow> None
      | Some (v, expiry) \<Rightarrow> if expiry < clock w then None else Some v)"

text \<open>
  Modelled from the spec: \<open>set\<close> of the same cache, called without a TTL override. It
  stores the value under the key with expiry time = insertion time + configured TTL
  (\<open>stdTTL: config.cache.ttl\<close>, in seconds), replacing an earlier entry of the key.
\<close>

definition cache_set :: "env \<Rightarrow> string \<Rightarrow> article list \<Rightarrow> world \<Rightarrow> world" where
  "cache_set e k v w =
     w\<lparr>cache := (cache w)(k \<mapsto> (v, clock w + 1000 * cacheTtl (cfg e)))\<rparr>"

subsection \<open>Requests and formatting\<close>

text \<open>
  \<open>await axios.get(url, { ...this.axiosConfig, params })\<close> with \<open>timeout: 10000\<close>: an
  answer that takes more than ten seconds is a timeout error after ten seconds.
\<close>

definition axios_get :: "env \<Rightarrow> request \<Rightarrow> world \<Rightarrow> response \<times> world" where
  "axios_get e rq w =
     (case respond e (length (requests w)) rq of
        (ms, r) \<Rightarrow>
          if 10000 < ms
          then (Throws, w\<lparr>clock := clock w + 10000, requests := requests w @ [rq]\<rparr>)
          else (r, w\<lparr>clock := clock w + int ms, requests := requests w @ [rq]\<rparr>))"

text \<open>A template literal prints an integer in decimal (below \<open>10^21\<close> in magnitude).\<close>

fun digits :: "nat \<Rightarrow> string" where
  "digits n =
     (if n < 10 then [char_of (48 + n)]
      else digits (n div 10) @ [char_of (48 + n mod 10)])"

declare digits.simps [simp del]

definition numberToString :: "int \<Rightarrow> string" where
  "numberToString i = (if i < 0 then CHR ''-'' # digits (nat (- i)) else digits (nat i))"

fun mapper :: "provider \<Rightarrow> string \<Rightarrow> int \<Rightarrow> raw \<Rightarrow> string \<Rightarrow> article" where
  "mapper NewsAPI = fromNewsAPI"
| "mapper GNews = fromGNews"

text \<open>\<open>.map(article => Article.fromX(article, category))\<close>, drawing one identifier each.\<close>

fun mapArticles ::
  "(string \<Rightarrow> int \<Rightarrow> raw \<Rightarrow> string \<Rightarrow> article) \<Rightarrow> (nat \<Rightarrow> string) \<Rightarrow> nat \<Rightarrow> int \<Rightarrow> string
     \<Rightarrow> raw list \<Rightarrow> article list" where
  "mapArticles mk rnd n now cat [] = []"
| "mapArticles mk rnd n now cat (r # rs) =
     mk (rnd n) now r cat # mapArticles mk rnd (Suc n) now cat rs"

text \<open>\<open>.filter(article => article.title && article.url).map(...)\<close>\<close>

definition formatArticles ::
  "provider \<Rightarrow> env \<Rightarrow> string \<Rightarrow> raw list \<Rightarrow> world \<Rightarrow> article list \<times> world" where
  "formatArticles p e cat rs w =
     (let kept = filter (\<lambda>r. truthy (raw_title r) \<and> truthy (raw_url r)) rs
      in (mapArticles (mapper p) (random e) (minted w) (clock w) cat kept,
          w\<lparr>minted := minted w + length kept\<rparr>))"

section \<open>services/NewsService.js: the provider fetches\<close>

fun apiKey :: "provider \<Rightarrow> config \<Rightarrow> jsstr" where
  "apiKey NewsAPI c = newsApiKey c"
| "apiKey GNews c = gnewsApiKey c"

fun keyPrefix :: "provider \<Rightarrow> string" where
  "keyPrefix NewsAPI = ''newsapi_''"
| "keyPrefix GNews = ''gnews_''"

definition categoryKey :: "provider \<Rightarrow> string \<Rightarrow> string \<Rightarrow> int \<Rightarrow> string" where
  "categoryKey p c l n = keyPrefix p @ c @ ''_'' @ l @ ''_'' @ numberToString n"

definition topHeadlines :: "provider \<Rightarrow> string \<Rightarrow> string \<Rightarrow> int \<Rightarrow> request" where
  "topHeadlines p c l n =
     \<lparr> host = p, path = TopHeadlines, subject = c, lang = l, amount = min n 100 \<rparr>"

text \<open>
  The body of the \<open>try\<close> block of \<open>fetchFromNewsAPI\<close> and \<open>fetchFromGNews\<close> (the two
  differ in the provider only): the loop over the categories with the accumulator
  \<open>articles\<close>. The result \<open>None\<close> is an exception leaving the loop.
\<close>

fun fetchLoop ::
  "env \<Rightarrow> provider \<Rightarrow> string \<Rightarrow> int \<Rightarrow> string list \<Rightarrow> article list \<Rightarrow> world
     \<Rightarrow> article list option \<times> world" where
  "fetchLoop e p l n [] acc w = (Some acc, w)"
| "fetchLoop e p l n (c # cs) acc w =
     (case cache_get w (categoryKey p c l n) of
        Some cached \<Rightarrow> fetchLoop e p l n cs (acc @ cached) w
      | None \<Rightarrow>
          (case axios_get e (topHeadlines p c l n) w of
             (Throws, w1) \<Rightarrow> (None, w1)
           | (Body None, w1) \<Rightarrow> fetchLoop e p l n cs acc w1
           | (Body (Some rs), w1) \<Rightarrow>
               (case formatArticles p e c rs w1 of
                  (formatted, w2) \<Rightarrow>
                    fetchLoop e p l n cs (acc @ formatted)
                      (cache_set e (categoryKey p c l n) formatted w2))))"

text \<open>The key check before the \<open>try\<close>, and the \<open>catch\<close> that returns \<open>[]\<close>.\<close>

definition fetchFrom ::
  "provider \<Rightarrow> env \<Rightarrow> string list \<Rightarrow> string \<Rightarrow> int \<Rightarrow> world \<Rightarrow> article list \<times> world" where
  "fetchFrom p e categories l n w =
     (if \<not> truthy (apiKey p (cfg e)) then ([], w)
      else (case fetchLoop e p l n categories [] w of
              (Some articles, w') \<Rightarrow> (articles, w')
            | (None, w') \<Rightarrow> ([], w')))"

definition fetchFromNewsAPI ::
  "env \<Rightarrow> string list \<Rightarrow> string \<Rightarrow> int \<Rightarrow> world \<Rightarrow> article list \<times> world" where
  "fetchFromNewsAPI = fetchFrom NewsAPI"

definition fetchFromGNews ::
  "env \<Rightarrow> string list \<Rightarrow> string \<Rightarrow> int \<Rightarrow> world \<Rightarrow> article list \<times> world" where
  "fetchFromGNews = fetchFrom GNews"

section \<open>services/NewsService.js: search\<close>

definition searchKey :: "string \<Rightarrow> string \<Rightarrow> int \<Rightarrow> string" where
  "searchKey keyword l pageSize =
     ''search_'' @ keyword @ ''_'' @ l @ ''_'' @ numberToString pageSize"

fun searchPath :: "provider \<Rightarrow> endpoint" where
  "searchPath NewsAPI = Everything"
| "searchPath GNews = Search"

text \<open>
  One of the two \<open>try\<close> blocks of \<open>searchNews\<close>: the request and the articles it pushes.
  Its \<open>catch\<close> only logs, so a failure pushes nothing.
\<close>

definition searchProvider ::
  "provider \<Rightarrow> env \<Rightarrow> string \<Rightarrow> string \<Rightarrow> int \<Rightarrow> world \<Rightarrow> article list \<times> world" where
  "searchProvider p e keyword l n w =
     (case axios_get e
             \<lparr> host = p, path = searchPath p, subject = keyword, lang = l, amount = min n 100 \<rparr> w of
        (Throws, w1) \<Rightarrow> ([], w1)
      | (Body None, w1) \<Rightarrow> ([], w1)
      | (Body (Some rs), w1) \<Rightarrow> formatArticles p e ''search'' rs w1)"

definition searchNews ::
  "env \<Rightarrow> string \<Rightarrow> string \<Rightarrow> int \<Rightarrow> world \<Rightarrow> article list \<times> world" where
  "searchNews e keyword l pageSize w =
     (case cache_get w (searchKey keyword l pageSize) of
        Some cachedResults \<Rightarrow> (cachedResults, w)
      | None \<Rightarrow>
          (case (if truthy (newsApiKey (cfg e))
                 then searchProvider NewsAPI e keyword l pageSize w
                 else ([], w)) of
             (articles1, w1) \<Rightarrow>
               (case (if truthy (gnewsApiKey (cfg e)) \<and> int (length articles1) < pageSize
                      then searchProvider GNews e keyword l
                             (pageSize - int (length articles1)) w1
                      else ([], w1)) of
                  (articles2, w2) \<Rightarrow>
                    (articles1 @ articles2,
                     cache_set e (searchKey keyword l pageSize) (articles1 @ articles2) w2))))"

section \<open>services/NewsService.js: the synthetic articles\<close>

definition mockItem ::
  "string \<Rightarrow> string \<Rightarrow> string \<Rightarrow> string \<Rightarrow> int \<Rightarrow> string \<Rightarrow> string \<Rightarrow> string \<Rightarrow> raw" where
  "mockItem t d u img pub src auth cont =
     \<lparr> raw_title = Str t, raw_description = Str d, raw_url = Str u, raw_urlToImage = Str img,
       raw_image = Undefined, raw_publishedAt = Some pub, raw_sourceName = Str src,
       raw_language = Undefined, raw_content = Str cont, raw_author = Str auth \<rparr>"

text \<open>
  The array \<open>baseArticles\<close>; \<open>now\<close> is the reading of \<open>new Date()\<close> and \<open>Date.now()\<close>.
  Each \<open>publishedAt\<close> is the ISO string of a valid date, so it parses.
\<close>

definition baseArticles :: "int \<Rightarrow> raw list" where
  "baseArticles now =
     [ mockItem ''Breaking: Technology Advances in 2024''
         ''Latest technological innovations are reshaping the industry with AI and machine learning''
         ''https://example.com/tech-news-1''
         ''https://via.placeholder.com/400x200/0066CC/FFFFFF?text=Tech+News''
         now ''Tech Daily'' ''John Doe''
         ''Artificial intelligence and machine learning continue to transform industries...'',
       mockItem ''Global Business Trends Show Positive Growth''
         ''Economic indicators show positive growth across multiple sectors worldwide''
         ''https://example.com/business-news-1''
         ''https://via.placeholder.com/400x200/00AA00/FFFFFF?text=Business+News''
         (now - 3600000) ''Business Weekly'' ''Jane Smith''
         ''Markets are showing resilience as global trade continues to expand...'',
       mockItem ''Sports Championship Finals Draw Record Viewers''
         (''This year'' @ [CHR 0x27] @ ''s championship has broken all previous viewership records'')
         ''https://example.com/sports-news-1''
         ''https://via.placeholder.com/400x200/FF6600/FFFFFF?text=Sports+News''
         (now - 7200000) ''Sports Central'' ''Mike Johnson''
         ''The championship finals have captivated audiences worldwide...'',
       mockItem ''Health Research Breakthrough in Disease Treatment''
         ''Scientists announce major breakthrough in treatment of chronic diseases''
         ''https://example.com/health-news-1''
         ''https://via.placeholder.com/400x200/CC0066/FFFFFF?text=Health+News''
         (now - 10800000) ''Medical Journal'' ''Dr. Sarah Wilson''
         ''Researchers have made significant progress in understanding...'',
       mockItem ''Entertainment Industry Embraces New Digital Platforms''
         ''Streaming services and digital content creation reach new heights''
         ''https://example.com/entertainment-news-1''
         ''https://via.placeholder.com/400x200/9933CC/FFFFFF?text=Entertainment''
         (now - 14400000) ''Entertainment Today'' ''Lisa Chen''
         ''The entertainment landscape continues to evolve with digital innovation...'' ]"

text \<open>\<open>categories[0] || 'general'\<close>\<close>

fun firstCategory :: "string list \<Rightarrow> string" where
  "firstCategory [] = ''general''"
| "firstCategory (c # cs) = (if c = [] then ''general'' else c)"

text \<open>
  \<open>getMockArticles\<close> reads the clock and draws one identifier for each article it
  builds; \<open>rnd\<close>, \<open>n\<close> and \<open>now\<close> are those inputs.
\<close>

definition getMockArticles :: "(nat \<Rightarrow> string) \<Rightarrow> nat \<Rightarrow> int \<Rightarrow> string list \<Rightarrow> article list" where
  "getMockArticles rnd n now categories =
     mapArticles fromNewsAPI rnd n now (firstCategory categories)
       (if ''general'' \<in> set categories then baseArticles now else take 3 (baseArticles now))"

section \<open>services/NewsService.js: personalized news\<close>

text \<open>\<open>Math.ceil(limit / 2)\<close> on an integer.\<close>

definition ceilHalf :: "int \<Rightarrow> int" where
  "ceilHalf limit = (limit + 1) div 2"

text \<open>\<open>xs.slice(0, k)\<close>: a negative \<open>k\<close> counts from the end of the array.\<close>

definition slice0 :: "'a list \<Rightarrow> int \<Rightarrow> 'a list" where
  "slice0 xs k = (if k < 0 then take (nat (int (length xs) + k)) xs else take (nat k) xs)"

text \<open>
  The comparator \<open>(a, b) => new Date(b.publishedAt) - new Date(a.publishedAt)\<close>: the
  difference of the time values. It is \<open>NaN\<close> when either date is invalid, and
  \<open>Array.prototype.sort\<close> reads a \<open>NaN\<close> from its comparator as \<open>+0\<close>.
\<close>

definition compareNewest :: "article \<Rightarrow> article \<Rightarrow> int" where
  "compareNewest a b =
     (case (publishedAt b, publishedAt a) of
        (Some tb, Some ta) \<Rightarrow> tb - ta
      | _ \<Rightarrow> 0)"

text \<open>
  \<open>uniqueArticles.sort(comparator)\<close>. With valid dates only, the comparator is
  consistent and the result is fixed by the language: the stable sort, newest first.
  With an invalid date among them it is not consistent, and the language leaves the
  order to the engine. The sort is the stable insertion sort by the comparator here: it
  agrees with every stable sort in the first case, and in the second it leaves an
  element in place whenever the comparator answers 0, as the engine does with the list
  \<open>[1000, invalid, 3000]\<close>.
\<close>

fun insertBy :: "('a \<Rightarrow> 'a \<Rightarrow> int) \<Rightarrow> 'a \<Rightarrow> 'a list \<Rightarrow> 'a list" where
  "insertBy cmp x [] = [x]"
| "insertBy cmp x (y # ys) = (if cmp x y \<le> 0 then x # y # ys else y # insertBy cmp x ys)"

definition sortBy :: "('a \<Rightarrow> 'a \<Rightarrow> int) \<Rightarrow> 'a list \<Rightarrow> 'a list" where
  "sortBy cmp xs = foldr (insertBy cmp) xs []"

definition sortNewestFirst :: "article list \<Rightarrow> article list" where
  "sortNewestFirst xs = sortBy compareNewest xs"

text \<open>
  The order the sort aims at, \<open>a.publishedAt >= b.publishedAt\<close>: \<open>a\<close> is not older than
  \<open>b\<close>. The comparison is false when either date is invalid.
\<close>

definition notOlder :: "article \<Rightarrow> article \<Rightarrow> bool" where
  "notOlder a b =
     (case (publishedAt a, publishedAt b) of
        (Some ta, Some tb) \<Rightarrow> tb \<le> ta
      | _ \<Rightarrow> False)"

text \<open>
  What \<open>getPersonalizedNews\<close> does with the two lists once both fetches have settled:
  the synthetic articles when both are empty, deduplication, sorting, truncation.
\<close>

definition mergeNews ::
  "env \<Rightarrow> string list \<Rightarrow> int \<Rightarrow> article list \<Rightarrow> article list \<Rightarrow> world \<Rightarrow> article list \<times> world" where
  "mergeNews e preferences limit newsApiArticles gnewsArticles w =
     (case (if newsApiArticles @ gnewsArticles = []
            then (getMockArticles (random e) (minted w) (clock w) preferences,
                  w\<lparr>minted := minted w
                       + length (getMockArticles (random e) (minted w) (clock w) preferences)\<rparr>)
            else (newsApiArticles @ gnewsArticles, w)) of
        (allArticles, w') \<Rightarrow>
          (slice0 (sortNewestFirst (removeDuplicates allArticles)) limit, w'))"

text \<open>
  \<open>Promise.all\<close> starts both fetches; they read and write disjoint cache keys (the
  prefixes \<open>newsapi_\<close> and \<open>gnews_\<close>), and the first one is run to completion before
  the second here, so the order of the requests, the identifiers and the creation times
  can differ from those of an interleaved run; the two lists handed to the merge are
  concatenated in the same order either way. No step of the \<open>try\<close> block raises on
  lists of articles (each fetch catches its own errors), so the outer \<open>catch\<close> has no
  branch.
\<close>

definition getPersonalizedNews ::
  "env \<Rightarrow> string list \<Rightarrow> string \<Rightarrow> int \<Rightarrow> world \<Rightarrow> article list \<times> world" where
  "getPersonalizedNews e preferences l limit w =
     (case fetchFromNewsAPI e preferences l (ceilHalf limit) w of
        (newsApiArticles, w1) \<Rightarrow>
          (case fetchFromGNews e preferences l (ceilHalf limit) w1 of
             (gnewsArticles, w2) \<Rightarrow>
               mergeNews e preferences limit newsApiArticles gnewsArticles w2))"

section \<open>models/User.js\<close>

text \<open>
  A JavaScript \<open>Set\<close> of article identifiers keeps insertion order: it is a list
  without repetitions, \<open>add\<close> appends a new element and \<open>delete\<close> removes it.
\<close>

definition setAdd :: "'a \<Rightarrow> 'a list \<Rightarrow> 'a list" where
  "setAdd x xs = (if x \<in> set xs then xs else xs @ [x])"

definition setDelete :: "'a \<Rightarrow> 'a list \<Rightarrow> 'a list" where
  "setDelete x xs = removeAll x xs"

record user =
  user_id :: string
  name :: string
  email :: string
  password :: string
  preferences :: "string list"
  readArticles :: "string list"
  favoriteArticles :: "string list"
  user_createdAt :: int
  updatedAt :: int

text \<open>The methods read the clock for \<open>updatedAt\<close>; \<open>now\<close> is that reading.\<close>

definition markAsRead :: "string \<Rightarrow> int \<Rightarrow> user \<Rightarrow> user" where
  "markAsRead articleId now u =
     u\<lparr>readArticles := setAdd articleId (readArticles u), updatedAt := now\<rparr>"

definition markAsFavorite :: "string \<Rightarrow> int \<Rightarrow> user \<Rightarrow> user" where
  "markAsFavorite articleId now u =
     u\<lparr>favoriteArticles := setAdd articleId (favoriteArticles u), updatedAt := now\<rparr>"

definition removeFavorite :: "string \<Rightarrow> int \<Rightarrow> user \<Rightarrow> user" where
  "removeFavorite articleId now u =
     u\<lparr>favoriteArticles := setDelete articleId (favoriteArticles u), updatedAt := now\<rparr>"

section \<open>models/DataStore.js\<close>

text \<open>
  The two \<open>Map\<close>s of the store, in insertion order: users under the e-mail key they were
  created with, articles under their identifier. (\<open>userSessions\<close> is never written.)
\<close>

record dataStore =
  users :: "(string \<times> user) list"
  articles :: "(string \<times> article) list"

text \<open>The scan of \<open>this.users.values()\<close>: the first user with the identifier.\<close>

definition getUserById :: "dataStore \<Rightarrow> string \<Rightarrow> user option" where
  "getUserById s ident = find (\<lambda>u. user_id u = ident) (map snd (users s))"

definition getArticle :: "dataStore \<Rightarrow> string \<Rightarrow> article option" where
  "getArticle s ident = map_of (articles s) ident"

text \<open>
  The user object \<open>getUserById\<close> returns is the one held by the map, so a method called
  on it changes that entry: the first one whose user has the identifier.
\<close>

fun updateFound :: "string \<Rightarrow> (user \<Rightarrow> user) \<Rightarrow> (string \<times> user) list \<Rightarrow> (string \<times> user) list" where
  "updateFound ident f [] = []"
| "updateFound ident f ((k, u) # rest) =
     (if user_id u = ident then (k, f u) # rest else (k, u) # updateFound ident f rest)"

text \<open>
  \<open>markArticleAsRead\<close>, \<open>markArticleAsFavorite\<close> and \<open>removeFavoriteArticle\<close> have one
  shape: look the user up, call the method and return \<open>true\<close>, or return \<open>false\<close>.
\<close>

definition withUser ::
  "(user \<Rightarrow> user) \<Rightarrow> dataStore \<Rightarrow> string \<Rightarrow> bool \<times> dataStore" where
  "withUser f s userId =
     (case getUserById s userId of
        Some u \<Rightarrow> (True, s\<lparr>users := updateFound userId f (users s)\<rparr>)
      | None \<Rightarrow> (False, s))"

definition markArticleAsRead :: "dataStore \<Rightarrow> string \<Rightarrow> string \<Rightarrow> int \<Rightarrow> bool \<times> dataStore" where
  "markArticleAsRead s userId articleId now = withUser (markAsRead articleId now) s userId"

definition markArticleAsFavorite :: "dataStore \<Rightarrow> string \<Rightarrow> string \<Rightarrow> int \<Rightarrow> bool \<times> dataStore" where
  "markArticleAsFavorite s userId articleId now = withUser (markAsFavorite articleId now) s userId"

definition removeFavoriteArticle :: "dataStore \<Rightarrow> string \<Rightarrow> string \<Rightarrow> int \<Rightarrow> bool \<times> dataStore" where
  "removeFavoriteArticle s userId articleId now = withUser (removeFavorite articleId now) s userId"

text \<open>
  \<open>Array.from(ids).map(id => this.getArticle(id)).filter(Boolean)\<close>: the stored
  article of each identifier, in the order of the set, without the missing ones.
\<close>

definition lookupArticles :: "dataStore \<Rightarrow> string list \<Rightarrow> article list" where
  "lookupArticles s ids = List.map_filter (getArticle s) ids"

definition getUserReadArticles :: "dataStore \<Rightarrow> string \<Rightarrow> article list" where
  "getUserReadArticles s userId =
     (case getUserById s userId of
        None \<Rightarrow> []
      | Some u \<Rightarrow> lookupArticles s (readArticles u))"

definition getUserFavoriteArticles :: "dataStore \<Rightarrow> string \<Rightarrow> article list" where
  "getUserFavoriteArticles s userId =
     (case getUserById s userId of
        None \<Rightarrow> []
      | Some u \<Rightarrow> lookupArticles s (favoriteArticles u))"

section \<open>Sample data for concrete runs\<close>

definition emptyWorld :: world where
  "emptyWorld = \<lparr> cache = (\<lambda>k. None), clock = 0, requests = [], minted = 0 \<rparr>"

definition plainItem :: "string \<Rightarrow> string \<Rightarrow> int option \<Rightarrow> raw" where
  "plainItem t u pub =
     \<lparr> raw_title = Str t, raw_description = Undefined, raw_url = Str u,
       raw_urlToImage = Undefined, raw_image = Undefined, raw_publishedAt = pub,
       raw_sourceName = Undefined, raw_language = Undefined, raw_content = Undefined,
       raw_author = Undefined \<rparr>"

definition sampleIds :: "nat \<Rightarrow> string" where
  "sampleIds n = CHR ''_'' # digits n"

text \<open>No provider key is configured.\<close>

definition noKeys :: env where
  "noKeys = \<lparr> cfg = \<lparr> newsApiKey = Undefined, gnewsApiKey = Undefined, cacheTtlParsed = Some 3600 \<rparr>,
              respond = (\<lambda>n rq. (0, Throws)), random = sampleIds \<rparr>"

text \<open>Both providers are configured and answer every request with the same story.\<close>

definition sameStory :: env where
  "sameStory = \<lparr> cfg = \<lparr> newsApiKey = Str ''k1'', gnewsApiKey = Str ''k2'', cacheTtlParsed = Some 3600 \<rparr>,
                 respond = (\<lambda>n rq. (120, Body (Some [plainItem ''A'' ''https://x.com/a'' (Some 1000)]))),
                 random = sampleIds \<rparr>"

text \<open>NewsAPI is configured; its requests for the category \<open>sports\<close> time out.\<close>

definition sportsDown :: env where
  "sportsDown = \<lparr> cfg = \<lparr> newsApiKey = Str ''k1'', gnewsApiKey = Undefined, cacheTtlParsed = Some 3600 \<rparr>,
                  respond = (\<lambda>n rq. if subject rq = ''sports'' then (10000, Throws)
                                     else (120, Body (Some [plainItem ''A'' ''https://x.com/a'' (Some 1000)]))),
                  random = sampleIds \<rparr>"

text \<open>
  NewsAPI is configured; the second of its three stories carries no parseable date.
\<close>

definition undated :: env where
  "undated = \<lparr> cfg = \<lparr> newsApiKey = Str ''k1'', gnewsApiKey = Undefined, cacheTtlParsed = None \<rparr>,
               respond = (\<lambda>n rq. (120, Body (Some [plainItem ''A'' ''https://x.com/a'' (Some 1000),
                                                    plainItem ''B'' ''https://x.com/b'' None,
                                                    plainItem ''C'' ''https://x.com/c'' (Some 3000)]))),
               random = sampleIds \<rparr>"

text \<open>The environment sets \<open>CACHE_TTL=-5\<close>.\<close>

definition negativeTtl :: env where
  "negativeTtl = \<lparr> cfg = \<lparr> newsApiKey = Undefined, gnewsApiKey = Undefined,
                           cacheTtlParsed = Some (- 5) \<rparr>,
                   respond = (\<lambda>n rq. (0, Throws)), random = sampleIds \<rparr>"

definition sampleArticle :: "string \<Rightarrow> jsstr \<Rightarrow> int \<Rightarrow> article" where
  "sampleArticle ident u pub =
     newArticle ident 0 (Str ''A'') Undefined u Undefined (Some pub) (Str ''Unknown'') ''general''
       (Str ''en'') Undefined Undefined"

definition sampleUser :: user where
  "sampleUser =
     \<lparr> user_id = ''_u1'', name = ''Ann'', email = ''ann@example.com'', password = ''hash'',
       preferences = [''technology''], readArticles = [''_a1'', ''_gone''],
       favoriteArticles = [''_a1''], user_createdAt = 0, updatedAt = 0 \<rparr>"

definition sampleStore :: dataStore where
  "sampleStore =
     \<lparr> users = [(''ann@example.com'', sampleUser)],
       articles = [(''_a1'', sampleArticle ''_a1'' (Str ''https://x.com/a'') 1000)] \<rparr>"

section \<open>Deduplication\<close>

lemma dedupFrom_nths:
  "dedupFrom seen xs =
     nths xs {i. url (xs ! i) \<notin> seen \<and> (\<forall>j<i. url (xs ! j) \<noteq> url (xs ! i))}"
proof (induction xs arbitrary: seen)
  case Nil
  show ?case by simp
next
  case (Cons a as)
  show ?case
  proof (cases "url a \<in> seen")
    case True
    have "{j. url (as ! j) \<notin> seen \<and> (\<forall>k<Suc j. url ((a # as) ! k) \<noteq> url (as ! j))}
        = {j. url (as ! j) \<notin> seen \<and> (\<forall>k<j. url (as ! k) \<noteq> url (as ! j))}"
      using True by (auto simp: All_less_Suc2)
    with True show ?thesis
      by (simp add: nths_Cons Cons.IH)
  next
    case False
    have "{j. url (as ! j) \<notin> seen \<and> (\<forall>k<Suc j. url ((a # as) ! k) \<noteq> url (as ! j))}
        = {j. url (as ! j) \<notin> insert (url a) seen \<and> (\<forall>k<j. url (as ! k) \<noteq> url (as ! j))}"
      by (auto simp: All_less_Suc2)
    with False show ?thesis
      by (simp add: nths_Cons Cons.IH)
  qed
qed

lemma dedupFrom_unseen: "a \<in> set (dedupFrom seen xs) \<Longrightarrow> url a \<notin> seen"
  by (induction xs arbitrary: seen) (auto split: if_splits)

lemma dedupFrom_distinct: "distinct (map url (dedupFrom seen xs))"
  by (induction xs arbitrary: seen) (auto dest: dedupFrom_unseen)

lemma dedupFrom_first:
  "a \<in> set (dedupFrom seen xs) \<Longrightarrow> find (\<lambda>b. url b = url a) xs = Some a"
  by (induction xs arbitrary: seen) (auto split: if_splits dest: dedupFrom_unseen)

lemma dedupFrom_id:
  "distinct (map url xs) \<Longrightarrow> url ` set xs \<inter> seen = {} \<Longrightarrow> dedupFrom seen xs = xs"
  by (induction xs arbitrary: seen) auto

lemma removeDuplicates_id: "distinct (map url xs) \<Longrightarrow> removeDuplicates xs = xs"
  by (simp add: removeDuplicates_def dedupFrom_id)

lemma removeDuplicates_distinct: "distinct (map url (removeDuplicates xs))"
  by (simp add: removeDuplicates_def dedupFrom_distinct)

lemma removeDuplicates_first:
  "a \<in> set (removeDuplicates xs) \<Longrightarrow> find (\<lambda>b. url b = url a) xs = Some a"
  by (simp add: removeDuplicates_def dedupFrom_first)

text \<open>
  C5 (as amended). \<open>removeDuplicates\<close> keeps exactly the positions of the list that no
  earlier position shares its URL value with: an article is removed exactly when an
  earlier article of the list has an equal URL. The comparison is the one of a
  JavaScript \<open>Set\<close>, so it makes no exception for the empty string or an absent URL:
  of several articles with an empty URL (or with an absent one) only the first is kept.
\<close>

theorem removeDuplicates_first_occurrences:
  "removeDuplicates xs = nths xs {i. \<forall>j<i. url (xs ! j) \<noteq> url (xs ! i)}"
  by (simp add: removeDuplicates_def dedupFrom_nths)

text \<open>
  The theorem at a list of three articles, the second repeating the URL of the first:
  the positions it selects are the first and the third.
\<close>

theorem removeDuplicates_first_occurrences_witness:
  "nths [sampleArticle ''_a1'' (Str ''https://x.com/a'') 3,
         sampleArticle ''_a2'' (Str ''https://x.com/a'') 2,
         sampleArticle ''_a3'' (Str ''https://x.com/b'') 1]
     {i. \<forall>j<i. url ([sampleArticle ''_a1'' (Str ''https://x.com/a'') 3,
                       sampleArticle ''_a2'' (Str ''https://x.com/a'') 2,
                       sampleArticle ''_a3'' (Str ''https://x.com/b'') 1] ! j)
              \<noteq> url ([sampleArticle ''_a1'' (Str ''https://x.com/a'') 3,
                       sampleArticle ''_a2'' (Str ''https://x.com/a'') 2,
                       sampleArticle ''_a3'' (Str ''https://x.com/b'') 1] ! i)}
   = [sampleArticle ''_a1'' (Str ''https://x.com/a'') 3,
      sampleArticle ''_a3'' (Str ''https://x.com/b'') 1]"
proof -
  have run: "removeDuplicates [sampleArticle ''_a1'' (Str ''https://x.com/a'') 3,
         sampleArticle ''_a2'' (Str ''https://x.com/a'') 2,
         sampleArticle ''_a3'' (Str ''https://x.com/b'') 1]
      = [sampleArticle ''_a1'' (Str ''https://x.com/a'') 3,
         sampleArticle ''_a3'' (Str ''https://x.com/b'') 1]"
    by (simp add: removeDuplicates_def sampleArticle_def newArticle_def)
  from removeDuplicates_first_occurrences
      [of "[sampleArticle ''_a1'' (Str ''https://x.com/a'') 3,
            sampleArticle ''_a2'' (Str ''https://x.com/a'') 2,
            sampleArticle ''_a3'' (Str ''https://x.com/b'') 1]", symmetric] run
  show ?thesis by (rule trans)
qed

text \<open>
  C5 as stated fails: two different articles with the empty URL (likewise with an absent
  URL) are deduplicated against each other, and the second one is dropped.
\<close>

theorem removeDuplicates_drops_empty_url:
  "url (sampleArticle ''_a1'' (Str []) 2) = Str []
   \<and> url (sampleArticle ''_a2'' (Str []) 1) = Str []
   \<and> sampleArticle ''_a2'' (Str []) 1
        \<notin> set (removeDuplicates [sampleArticle ''_a1'' (Str []) 2, sampleArticle ''_a2'' (Str []) 1])
   \<and> sampleArticle ''_a2'' Undefined 1
        \<notin> set (removeDuplicates [sampleArticle ''_a1'' Undefined 2, sampleArticle ''_a2'' Undefined 1])"
  by (simp add: removeDuplicates_def sampleArticle_def newArticle_def)


section \<open>The cache\<close>

text \<open>
  C6 (as amended). With a configured TTL that is not negative, a \<open>set\<close> followed
  immediately by a \<open>get\<close> of the same key returns the value that was set. Whatever
  the TTL, at any time after it has elapsed since the \<open>set\<close> the \<open>get\<close> returns
  absent, and from the \<open>set\<close> until then it returns the value.
\<close>

theorem cache_set_then_get:
  "(0 \<le> cacheTtl (cfg e) \<longrightarrow> cache_get (cache_set e k v w) k = Some v)
   \<and> (clock w + 1000 * cacheTtl (cfg e) < t \<longrightarrow>
        cache_get ((cache_set e k v w)\<lparr>clock := t\<rparr>) k = None)
   \<and> (clock w \<le> t \<and> t \<le> clock w + 1000 * cacheTtl (cfg e) \<longrightarrow>
        cache_get ((cache_set e k v w)\<lparr>clock := t\<rparr>) k = Some v)"
  by (simp add: cache_get_def cache_set_def)

theorem cache_set_then_get_witness:
  "0 \<le> cacheTtl (cfg noKeys)
   \<and> cache_get (cache_set noKeys ''k'' [sampleArticle ''_a1'' Null 0] emptyWorld) ''k''
       = Some [sampleArticle ''_a1'' Null 0]
   \<and> clock emptyWorld + 1000 * cacheTtl (cfg noKeys) < 3600001
   \<and> cache_get ((cache_set noKeys ''k'' [sampleArticle ''_a1'' Null 0] emptyWorld)
                   \<lparr>clock := 3600001\<rparr>) ''k'' = None
   \<and> clock emptyWorld \<le> 3600000
   \<and> 3600000 \<le> clock emptyWorld + 1000 * cacheTtl (cfg noKeys)
   \<and> cache_get ((cache_set noKeys ''k'' [sampleArticle ''_a1'' Null 0] emptyWorld)
                   \<lparr>clock := 3600000\<rparr>) ''k'' = Some [sampleArticle ''_a1'' Null 0]"
proof -
  have ttl: "0 \<le> cacheTtl (cfg noKeys)"
    by (simp add: cacheTtl_def noKeys_def)
  have late: "clock emptyWorld + 1000 * cacheTtl (cfg noKeys) < 3600001"
    by (simp add: emptyWorld_def cacheTtl_def noKeys_def)
  have early: "clock emptyWorld \<le> 3600000
      \<and> 3600000 \<le> clock emptyWorld + 1000 * cacheTtl (cfg noKeys)"
    by (simp add: emptyWorld_def cacheTtl_def noKeys_def)
  from ttl late early
    cache_set_then_get [of noKeys "''k''" "[sampleArticle ''_a1'' Null 0]" emptyWorld 3600001]
    cache_set_then_get [of noKeys "''k''" "[sampleArticle ''_a1'' Null 0]" emptyWorld 3600000]
  show ?thesis by blast
qed

text \<open>
  C6 as stated fails when the environment sets \<open>CACHE_TTL=-5\<close>: the configured TTL is
  \<open>-5\<close> seconds, the entry is stored with an expiry time in the past, and the \<open>get\<close>
  that follows the \<open>set\<close> immediately returns absent.
\<close>

theorem cache_negative_ttl_absent:
  "cacheTtl (cfg negativeTtl) = - 5
   \<and> cache_get (cache_set negativeTtl ''k'' [sampleArticle ''_a1'' Null 0] emptyWorld) ''k''
       = None"
  by (simp add: cache_get_def cache_set_def cacheTtl_def negativeTtl_def emptyWorld_def)

section \<open>The store\<close>

lemma getUserById_absent:
  "userId \<notin> user_id ` snd ` set (users s) \<Longrightarrow> getUserById s userId = None"
  by (auto simp: getUserById_def find_None_iff)

lemma updateFound_absent:
  "ident \<notin> user_id ` snd ` set us \<Longrightarrow> updateFound ident f us = us"
  by (induction us) auto

lemma withUser_absent:
  "userId \<notin> user_id ` snd ` set (users s) \<Longrightarrow> withUser f s userId = (False, s)"
  by (simp add: withUser_def getUserById_absent)

lemma withUser_snd:
  "snd (withUser f s userId) = s\<lparr>users := updateFound userId f (users s)\<rparr>"
proof (cases "getUserById s userId")
  case None
  then have "userId \<notin> user_id ` snd ` set (users s)"
    by (auto simp: getUserById_def find_None_iff)
  then show ?thesis using None by (simp add: withUser_def updateFound_absent)
next
  case (Some u)
  then show ?thesis by (simp add: withUser_def)
qed

lemma withUser_fst:
  "fst (withUser f s userId) = (getUserById s userId \<noteq> None)"
  by (simp add: withUser_def split: option.splits)

lemma find_updateFound:
  assumes "\<And>u. user_id (f u) = user_id u"
  shows "find (\<lambda>u. user_id u = ident) (map snd (updateFound ident f us))
       = map_option f (find (\<lambda>u. user_id u = ident) (map snd us))"
  using assms by (induction us) auto

lemma getUserById_updateFound:
  assumes "\<And>u. user_id (f u) = user_id u"
  shows "getUserById (s\<lparr>users := updateFound ident f (users s)\<rparr>) ident
       = map_option f (getUserById s ident)"
  using assms by (simp add: getUserById_def find_updateFound)

lemma updateFound_twice:
  assumes "\<And>u. user_id (f u) = user_id u"
  shows "updateFound ident g (updateFound ident f us) = updateFound ident (\<lambda>u. g (f u)) us"
  using assms by (induction us) auto

lemma user_id_removeFavorite [simp]: "user_id (removeFavorite a now u) = user_id u"
  by (simp add: removeFavorite_def)

lemma removeFavorite_twice:
  "removeFavorite a t2 (removeFavorite a t1 u) = removeFavorite a t2 u"
  by (simp add: removeFavorite_def setDelete_def)

text \<open>
  C7. For a user id that no user of the store has, \<open>markArticleAsRead\<close>,
  \<open>markArticleAsFavorite\<close> and \<open>removeFavoriteArticle\<close> return \<open>false\<close> and leave the
  store (all users and all articles) as it was.
\<close>

theorem unknown_user_not_found:
  assumes "userId \<notin> user_id ` snd ` set (users s)"
  shows "markArticleAsRead s userId articleId now = (False, s)
       \<and> markArticleAsFavorite s userId articleId now = (False, s)
       \<and> removeFavoriteArticle s userId articleId now = (False, s)"
  using assms
  by (simp add: markArticleAsRead_def markArticleAsFavorite_def removeFavoriteArticle_def
      withUser_absent)

theorem unknown_user_not_found_witness:
  "''_nobody'' \<notin> user_id ` snd ` set (users sampleStore)
   \<and> markArticleAsRead sampleStore ''_nobody'' ''_a1'' 5 = (False, sampleStore)
   \<and> markArticleAsFavorite sampleStore ''_nobody'' ''_a1'' 5 = (False, sampleStore)
   \<and> removeFavoriteArticle sampleStore ''_nobody'' ''_a1'' 5 = (False, sampleStore)"
proof -
  have absent: "''_nobody'' \<notin> user_id ` snd ` set (users sampleStore)"
    by (simp add: sampleStore_def sampleUser_def)
  from absent unknown_user_not_found [OF absent, of "''_a1''" 5]
  show ?thesis by blast
qed

text \<open>
  C8. For an existing user and an article id that is not among the user's favorites,
  \<open>removeFavoriteArticle\<close> succeeds (it returns \<open>true\<close>) and the user's favorite set is
  unchanged: the user differs in \<open>updatedAt\<close> only. The operation is idempotent, for
  every user id and article id: removing twice leaves the store that the later removal
  alone leaves, and returns what the first removal returned.
\<close>

theorem removeFavoriteArticle_idempotent:
  "(getUserById s userId = Some u \<and> articleId \<notin> set (favoriteArticles u) \<longrightarrow>
       fst (removeFavoriteArticle s userId articleId now)
     \<and> getUserById (snd (removeFavoriteArticle s userId articleId now)) userId
         = Some (u\<lparr>updatedAt := now\<rparr>))
   \<and> snd (removeFavoriteArticle (snd (removeFavoriteArticle s userId articleId t1))
             userId articleId t2)
       = snd (removeFavoriteArticle s userId articleId t2)
   \<and> fst (removeFavoriteArticle (snd (removeFavoriteArticle s userId articleId t1))
             userId articleId t2)
       = fst (removeFavoriteArticle s userId articleId t1)"
proof (intro conjI impI)
  assume h: "getUserById s userId = Some u \<and> articleId \<notin> set (favoriteArticles u)"
  then show "fst (removeFavoriteArticle s userId articleId now)"
    by (simp add: removeFavoriteArticle_def withUser_fst)
  have "removeFavorite articleId now u = u\<lparr>updatedAt := now\<rparr>"
    using h by (simp add: removeFavorite_def setDelete_def)
  then show "getUserById (snd (removeFavoriteArticle s userId articleId now)) userId
         = Some (u\<lparr>updatedAt := now\<rparr>)"
    using h by (simp add: removeFavoriteArticle_def withUser_snd getUserById_updateFound)
next
  show "snd (removeFavoriteArticle (snd (removeFavoriteArticle s userId articleId t1))
             userId articleId t2)
       = snd (removeFavoriteArticle s userId articleId t2)"
    by (simp add: removeFavoriteArticle_def withUser_snd updateFound_twice removeFavorite_twice)
next
  show "fst (removeFavoriteArticle (snd (removeFavoriteArticle s userId articleId t1))
             userId articleId t2)
       = fst (removeFavoriteArticle s userId articleId t1)"
    by (simp add: removeFavoriteArticle_def withUser_snd withUser_fst getUserById_updateFound)
qed

theorem removeFavoriteArticle_idempotent_witness:
  "getUserById sampleStore ''_u1'' = Some sampleUser
   \<and> ''_a2'' \<notin> set (favoriteArticles sampleUser)
   \<and> fst (removeFavoriteArticle sampleStore ''_u1'' ''_a2'' 7)
   \<and> getUserById (snd (removeFavoriteArticle sampleStore ''_u1'' ''_a2'' 7)) ''_u1''
       = Some (sampleUser\<lparr>updatedAt := 7\<rparr>)
   \<and> favoriteArticles (sampleUser\<lparr>updatedAt := 7\<rparr>) = [''_a1'']"
proof -
  have found: "getUserById sampleStore ''_u1'' = Some sampleUser"
    by (simp add: getUserById_def sampleStore_def sampleUser_def)
  have other: "''_a2'' \<notin> set (favoriteArticles sampleUser)"
    by (simp add: sampleUser_def)
  have favs: "favoriteArticles (sampleUser\<lparr>updatedAt := 7\<rparr>) = [''_a1'']"
    by (simp add: sampleUser_def)
  from found other favs
    removeFavoriteArticle_idempotent [of sampleStore "''_u1''" sampleUser "''_a2''" 7 0 0]
  show ?thesis by blast
qed

lemma set_lookupArticles:
  "set (lookupArticles s ids) = {a. \<exists>i\<in>set ids. getArticle s i = Some a}"
  by (induction ids) (auto simp: lookupArticles_def map_filter_simps split: option.splits)

lemma getArticle_stored: "getArticle s i = Some a \<Longrightarrow> (i, a) \<in> set (articles s)"
  by (simp add: getArticle_def map_of_SomeD)

text \<open>
  C10. \<open>getUserReadArticles\<close> and \<open>getUserFavoriteArticles\<close> return the empty list when
  no user has the id. Otherwise they return exactly the stored articles of the ids in the
  user's read (favorite) set: an id without a stored article is omitted, so the list has
  one entry for each id that has one, and every entry is an article of the store.
\<close>

theorem user_articles_only_stored:
  "(userId \<notin> user_id ` snd ` set (users s) \<longrightarrow>
       getUserReadArticles s userId = [] \<and> getUserFavoriteArticles s userId = [])
   \<and> (\<forall>u. getUserById s userId = Some u \<longrightarrow>
         set (getUserReadArticles s userId)
           = {a. \<exists>i\<in>set (readArticles u). getArticle s i = Some a}
       \<and> set (getUserFavoriteArticles s userId)
           = {a. \<exists>i\<in>set (favoriteArticles u). getArticle s i = Some a}
       \<and> length (getUserReadArticles s userId)
           = length (filter (\<lambda>i. getArticle s i \<noteq> None) (readArticles u))
       \<and> length (getUserFavoriteArticles s userId)
           = length (filter (\<lambda>i. getArticle s i \<noteq> None) (favoriteArticles u)))
   \<and> set (getUserReadArticles s userId) \<subseteq> snd ` set (articles s)
   \<and> set (getUserFavoriteArticles s userId) \<subseteq> snd ` set (articles s)"
proof -
  have sub: "set (lookupArticles s ids) \<subseteq> snd ` set (articles s)" for ids
    by (force simp: set_lookupArticles dest: getArticle_stored)
  have len: "length (lookupArticles s ids) = length (filter (\<lambda>i. getArticle s i \<noteq> None) ids)"
    for ids by (simp add: lookupArticles_def map_filter_def)
  have absent: "userId \<notin> user_id ` snd ` set (users s) \<longrightarrow>
       getUserReadArticles s userId = [] \<and> getUserFavoriteArticles s userId = []"
    by (simp add: getUserReadArticles_def getUserFavoriteArticles_def getUserById_absent)
  have present: "\<forall>u. getUserById s userId = Some u \<longrightarrow>
         set (getUserReadArticles s userId)
           = {a. \<exists>i\<in>set (readArticles u). getArticle s i = Some a}
       \<and> set (getUserFavoriteArticles s userId)
           = {a. \<exists>i\<in>set (favoriteArticles u). getArticle s i = Some a}
       \<and> length (getUserReadArticles s userId)
           = length (filter (\<lambda>i. getArticle s i \<noteq> None) (readArticles u))
       \<and> length (getUserFavoriteArticles s userId)
           = length (filter (\<lambda>i. getArticle s i \<noteq> None) (favoriteArticles u))"
    by (simp add: getUserReadArticles_def getUserFavoriteArticles_def set_lookupArticles len)
  have r: "set (getUserReadArticles s userId) \<subseteq> snd ` set (articles s)"
    using sub by (cases "getUserById s userId") (simp_all add: getUserReadArticles_def)
  have f: "set (getUserFavoriteArticles s userId) \<subseteq> snd ` set (articles s)"
    using sub by (cases "getUserById s userId") (simp_all add: getUserFavoriteArticles_def)
  from absent present r f show ?thesis by blast
qed

text \<open>
  The sample user has read \<open>_a1\<close>, which is stored, and \<open>_gone\<close>, which is not: the
  list of read articles has the one entry.
\<close>

theorem user_articles_only_stored_witness:
  "''_nobody'' \<notin> user_id ` snd ` set (users sampleStore)
   \<and> getUserReadArticles sampleStore ''_nobody'' = []
   \<and> getUserFavoriteArticles sampleStore ''_nobody'' = []
   \<and> getUserById sampleStore ''_u1'' = Some sampleUser
   \<and> readArticles sampleUser = [''_a1'', ''_gone'']
   \<and> length (getUserReadArticles sampleStore ''_u1'') = 1
   \<and> set (getUserReadArticles sampleStore ''_u1'') \<subseteq> snd ` set (articles sampleStore)"
proof -
  have absent: "''_nobody'' \<notin> user_id ` snd ` set (users sampleStore)"
    by (simp add: sampleStore_def sampleUser_def)
  have found: "getUserById sampleStore ''_u1'' = Some sampleUser"
    by (simp add: getUserById_def sampleStore_def sampleUser_def)
  have ids: "readArticles sampleUser = [''_a1'', ''_gone'']"
    by (simp add: sampleUser_def)
  have one: "length (filter (\<lambda>i. getArticle sampleStore i \<noteq> None) (readArticles sampleUser)) = 1"
    by (simp add: ids getArticle_def sampleStore_def)
  from absent found ids one
    user_articles_only_stored [of "''_nobody''" sampleStore]
    user_articles_only_stored [of "''_u1''" sampleStore]
  show ?thesis by (metis (no_types, lifting))
qed


section \<open>Sorting and truncation\<close>

lemma insertBy_mset: "mset (insertBy cmp x ys) = add_mset x (mset ys)"
  by (induction ys) auto

lemma sortBy_mset: "mset (sortBy cmp xs) = mset xs"
  by (induction xs) (auto simp: sortBy_def insertBy_mset)

lemma sortNewestFirst_mset: "mset (sortNewestFirst xs) = mset xs"
  by (simp add: sortNewestFirst_def sortBy_mset)

lemma sortNewestFirst_set [simp]: "set (sortNewestFirst xs) = set xs"
  using sortNewestFirst_mset [of xs] by (metis set_mset_mset)

lemma sortNewestFirst_distinct:
  assumes "distinct (map url xs)"
  shows "distinct (map url (sortNewestFirst xs))"
proof -
  have "mset (map url (sortNewestFirst xs)) = mset (map url xs)"
    by (simp add: sortNewestFirst_mset)
  then show ?thesis using assms by (metis mset_eq_imp_distinct_iff)
qed

text \<open>With valid dates only, the insertion sort is the stable sort by descending time.\<close>

lemma insertBy_valid:
  assumes "publishedAt x \<noteq> None" and "None \<notin> publishedAt ` set ys"
  shows "insertBy compareNewest x ys = insort_key (\<lambda>a. - the (publishedAt a)) x ys"
  using assms
proof (induction ys)
  case Nil
  show ?case by simp
next
  case (Cons y ys)
  from Cons.prems obtain tx ty where "publishedAt x = Some tx" and "publishedAt y = Some ty"
    by (cases "publishedAt x"; cases "publishedAt y") auto
  then have "(compareNewest x y \<le> 0) = (- the (publishedAt x) \<le> - the (publishedAt y))"
    by (simp add: compareNewest_def)
  then show ?case using Cons by simp
qed

lemma sortNewestFirst_valid:
  assumes "None \<notin> publishedAt ` set xs"
  shows "sortNewestFirst xs = sort_key (\<lambda>a. - the (publishedAt a)) xs"
  using assms
proof (induction xs)
  case Nil
  show ?case by (simp add: sortNewestFirst_def sortBy_def)
next
  case (Cons x xs)
  then have ih: "sortBy compareNewest xs = sort_key (\<lambda>a. - the (publishedAt a)) xs"
    by (simp add: sortNewestFirst_def)
  have "None \<notin> publishedAt ` set (sort_key (\<lambda>a. - the (publishedAt a)) xs)"
    using Cons.prems by simp
  moreover have "publishedAt x \<noteq> None"
    using Cons.prems by force
  ultimately show ?case
    by (simp add: sortNewestFirst_def sortBy_def ih [unfolded sortBy_def] insertBy_valid)
qed

lemma notOlder_valid:
  assumes "publishedAt a \<noteq> None" and "publishedAt b \<noteq> None"
  shows "notOlder a b = (- the (publishedAt a) \<le> - the (publishedAt b))"
  using assms by (auto simp: notOlder_def)

lemma sorted_notOlder:
  assumes "None \<notin> publishedAt ` set xs"
  shows "sorted_wrt notOlder xs = sorted (map (\<lambda>a. - the (publishedAt a)) xs)"
proof -
  have valid: "publishedAt a \<noteq> None" if "a \<in> set xs" for a
    using assms that by force
  have "sorted_wrt (\<lambda>a b. - the (publishedAt a) \<le> - the (publishedAt b)) xs"
    if "sorted_wrt notOlder xs"
    using that by (rule sorted_wrt_mono_rel [rotated]) (simp add: notOlder_valid valid)
  moreover have "sorted_wrt notOlder xs"
    if "sorted_wrt (\<lambda>a b. - the (publishedAt a) \<le> - the (publishedAt b)) xs"
    using that by (rule sorted_wrt_mono_rel [rotated]) (simp add: notOlder_valid valid)
  ultimately have "sorted_wrt notOlder xs
      = sorted_wrt (\<lambda>a b. - the (publishedAt a) \<le> - the (publishedAt b)) xs"
    by blast
  then show ?thesis by (simp add: sorted_map)
qed

lemma sortNewestFirst_sorted:
  assumes "None \<notin> publishedAt ` set xs"
  shows "sorted_wrt notOlder (sortNewestFirst xs)"
proof -
  have "None \<notin> publishedAt ` set (sortNewestFirst xs)"
    using assms by simp
  then show ?thesis
    by (simp add: sorted_notOlder sortNewestFirst_valid [OF assms])
qed

lemma sortNewestFirst_id:
  assumes "None \<notin> publishedAt ` set xs" and "sorted_wrt notOlder xs"
  shows "sortNewestFirst xs = xs"
proof -
  from assms have "sorted (map (\<lambda>a. - the (publishedAt a)) xs)"
    by (simp add: sorted_notOlder)
  then show ?thesis
    unfolding sortNewestFirst_valid [OF assms(1)] by (rule sort_key_id_if_sorted)
qed

lemma slice0_take: "\<exists>m. slice0 xs k = take m xs"
  by (auto simp: slice0_def)

lemma slice0_length: "0 \<le> k \<Longrightarrow> int (length (slice0 xs k)) \<le> k"
  by (simp add: slice0_def)

lemma slice0_all: "int (length xs) \<le> k \<Longrightarrow> slice0 xs k = xs"
  by (simp add: slice0_def)

lemma removeDuplicates_subset: "set (removeDuplicates xs) \<subseteq> set xs"
proof -
  have "set (dedupFrom seen ys) \<subseteq> set ys" for seen ys
    by (induction ys arbitrary: seen) auto
  then show ?thesis by (simp add: removeDuplicates_def)
qed

lemma pipeline_properties:
  fixes xs :: "article list" and limit :: int
  assumes "0 \<le> limit"
  defines "r \<equiv> slice0 (sortNewestFirst (removeDuplicates xs)) limit"
  shows "None \<notin> publishedAt ` set xs \<longrightarrow> sorted_wrt notOlder r"
    and "distinct (map url r)"
    and "int (length r) \<le> limit"
    and "\<forall>a\<in>set r. find (\<lambda>b. url b = url a) xs = Some a"
proof -
  obtain m where m: "r = take m (sortNewestFirst (removeDuplicates xs))"
    using slice0_take r_def by metis
  show "None \<notin> publishedAt ` set xs \<longrightarrow> sorted_wrt notOlder r"
  proof
    assume "None \<notin> publishedAt ` set xs"
    then have "None \<notin> publishedAt ` set (removeDuplicates xs)"
      using removeDuplicates_subset [of xs] by blast
    then have "sorted_wrt notOlder (sortNewestFirst (removeDuplicates xs))"
      by (rule sortNewestFirst_sorted)
    then show "sorted_wrt notOlder r"
      unfolding m by (rule sorted_wrt_take)
  qed
  have "distinct (take m (map url (sortNewestFirst (removeDuplicates xs))))"
    by (rule distinct_take) (simp add: sortNewestFirst_distinct removeDuplicates_distinct)
  then show "distinct (map url r)"
    by (simp add: m take_map)
  show "int (length r) \<le> limit"
    unfolding r_def using assms(1) by (rule slice0_length)
  have "set r \<subseteq> set (removeDuplicates xs)"
    unfolding m using set_take_subset [of m "sortNewestFirst (removeDuplicates xs)"] by simp
  then show "\<forall>a\<in>set r. find (\<lambda>b. url b = url a) xs = Some a"
    by (auto dest: removeDuplicates_first)
qed

section \<open>The synthetic articles\<close>

lemma mapArticles_length [simp]: "length (mapArticles mk rnd n now cat rs) = length rs"
  by (induction rs arbitrary: n) auto

lemma mapArticles_fromNewsAPI_url:
  "map url (mapArticles fromNewsAPI rnd n now cat rs) = map raw_url rs"
  by (induction rs arbitrary: n) (auto simp: fromNewsAPI_def newArticle_def)

lemma mapArticles_fromNewsAPI_publishedAt:
  "map publishedAt (mapArticles fromNewsAPI rnd n now cat rs) = map raw_publishedAt rs"
  by (induction rs arbitrary: n) (auto simp: fromNewsAPI_def newArticle_def)

lemma mapArticles_fromNewsAPI_category:
  "a \<in> set (mapArticles fromNewsAPI rnd n now cat rs) \<Longrightarrow> category a = cat"
  by (induction rs arbitrary: n) (auto simp: fromNewsAPI_def newArticle_def)

lemma baseArticles_urls:
  "map raw_url (baseArticles now) =
     [Str ''https://example.com/tech-news-1'', Str ''https://example.com/business-news-1'',
      Str ''https://example.com/sports-news-1'', Str ''https://example.com/health-news-1'',
      Str ''https://example.com/entertainment-news-1'']"
  by (simp add: baseArticles_def mockItem_def)

lemma baseArticles_times:
  "map raw_publishedAt (baseArticles now) =
     [Some now, Some (now - 3600000), Some (now - 7200000), Some (now - 10800000),
      Some (now - 14400000)]"
  by (simp add: baseArticles_def mockItem_def)

lemma baseArticles_length [simp]: "length (baseArticles now) = 5"
  by (simp add: baseArticles_def)

lemma getMockArticles_length:
  "length (getMockArticles rnd n now categories)
     = (if ''general'' \<in> set categories then 5 else 3)"
  by (simp add: getMockArticles_def)

lemma getMockArticles_distinct: "distinct (map url (getMockArticles rnd n now categories))"
  by (simp add: getMockArticles_def mapArticles_fromNewsAPI_url baseArticles_urls
      take_map [symmetric])

lemma getMockArticles_times:
  "map publishedAt (getMockArticles rnd n now categories)
     = take (length (getMockArticles rnd n now categories))
         [Some now, Some (now - 3600000), Some (now - 7200000), Some (now - 10800000),
          Some (now - 14400000)]"
  by (simp add: getMockArticles_def mapArticles_fromNewsAPI_publishedAt baseArticles_times
      take_map [symmetric])

lemma getMockArticles_valid:
  "None \<notin> publishedAt ` set (getMockArticles rnd n now categories)"
proof -
  have "None \<notin> set (map publishedAt (getMockArticles rnd n now categories))"
    unfolding getMockArticles_times by (auto dest: in_set_takeD)
  then show ?thesis by simp
qed

lemma getMockArticles_sorted:
  "sorted_wrt notOlder (getMockArticles rnd n now categories)"
proof -
  have "map (\<lambda>a. - the (publishedAt a)) (getMockArticles rnd n now categories)
      = map (\<lambda>t. - the t) (map publishedAt (getMockArticles rnd n now categories))"
    by simp
  also have "\<dots> = take (length (getMockArticles rnd n now categories))
      [- now, - (now - 3600000), - (now - 7200000), - (now - 10800000), - (now - 14400000)]"
    unfolding getMockArticles_times by (simp add: take_map [symmetric])
  finally have "sorted (map (\<lambda>a. - the (publishedAt a)) (getMockArticles rnd n now categories))"
    by (simp add: sorted_wrt_take)
  then show ?thesis
    by (simp add: sorted_notOlder getMockArticles_valid)
qed

lemma map_all_equal: "\<forall>a\<in>set xs. f a = c \<Longrightarrow> map f xs = replicate (length xs) c"
  by (induction xs) auto

lemma getMockArticles_category:
  "a \<in> set (getMockArticles rnd n now categories) \<Longrightarrow> category a = firstCategory categories"
  unfolding getMockArticles_def by (rule mapArticles_fromNewsAPI_category)

lemma getMockArticles_stable:
  "map (\<lambda>a. a\<lparr>article_id := [], publishedAt := None, createdAt := 0\<rparr>)
       (getMockArticles rnd n now categories)
   = map (\<lambda>a. a\<lparr>article_id := [], publishedAt := None, createdAt := 0\<rparr>)
       (getMockArticles rnd' n' now' categories)"
  by (simp add: getMockArticles_def baseArticles_def mockItem_def fromNewsAPI_def
      newArticle_def)

section \<open>Personalized news\<close>

lemma fetchFrom_unconfigured:
  "\<not> truthy (apiKey p (cfg e)) \<Longrightarrow> fetchFrom p e categories l n w = ([], w)"
  by (simp add: fetchFrom_def)

lemma mergeNews_mock:
  assumes "int (length (getMockArticles (random e) (minted w) (clock w) prefs)) \<le> limit"
  shows "mergeNews e prefs limit [] [] w
       = (getMockArticles (random e) (minted w) (clock w) prefs,
          w\<lparr>minted := minted w
               + length (getMockArticles (random e) (minted w) (clock w) prefs)\<rparr>)"
  using assms
  by (simp add: mergeNews_def removeDuplicates_id getMockArticles_distinct
      sortNewestFirst_id getMockArticles_valid getMockArticles_sorted slice0_all)

lemma getPersonalizedNews_unconfigured:
  assumes "\<not> truthy (newsApiKey (cfg e))" and "\<not> truthy (gnewsApiKey (cfg e))"
  shows "getPersonalizedNews e prefs l limit w = mergeNews e prefs limit [] [] w"
  using assms
  by (simp add: getPersonalizedNews_def fetchFromNewsAPI_def fetchFromGNews_def
      fetchFrom_unconfigured)

text \<open>
  C3 (as amended). When neither provider key is configured,
  \<open>getPersonalizedNews(['general'], 'en', 10)\<close> returns exactly the five synthetic
  articles, and for a preference list without \<open>general\<close> it returns exactly the first
  three, each tagged with \<open>categories[0] || 'general'\<close> (\<open>technology\<close> for
  \<open>['technology']\<close>). The generator is a function of the category list, the clock and
  the identifiers it draws: two calls with the same categories agree in everything but
  \<open>id\<close>, \<open>publishedAt\<close> and \<open>createdAt\<close>, and the published times are the clock reading
  minus 0, 1, 2, 3 and 4 hours.
\<close>

theorem unconfigured_returns_synthetic:
  assumes "\<not> truthy (newsApiKey (cfg e))" and "\<not> truthy (gnewsApiKey (cfg e))"
  shows "fst (getPersonalizedNews e [''general''] ''en'' 10 w)
           = getMockArticles (random e) (minted w) (clock w) [''general'']
       \<and> length (fst (getPersonalizedNews e [''general''] ''en'' 10 w)) = 5
       \<and> (''general'' \<notin> set prefs \<longrightarrow>
            fst (getPersonalizedNews e prefs l 10 w)
              = getMockArticles (random e) (minted w) (clock w) prefs
          \<and> length (fst (getPersonalizedNews e prefs l 10 w)) = 3
          \<and> (\<forall>a\<in>set (fst (getPersonalizedNews e prefs l 10 w)).
                category a = firstCategory prefs))
       \<and> (\<forall>a\<in>set (fst (getPersonalizedNews e [''technology''] ''en'' 10 w)).
             category a = ''technology'')
       \<and> map (\<lambda>a. a\<lparr>article_id := [], publishedAt := None, createdAt := 0\<rparr>)
             (getMockArticles rnd n now prefs)
           = map (\<lambda>a. a\<lparr>article_id := [], publishedAt := None, createdAt := 0\<rparr>)
               (getMockArticles rnd' n' now' prefs)
       \<and> map publishedAt (getMockArticles rnd n now prefs)
           = take (length (getMockArticles rnd n now prefs))
               [Some now, Some (now - 3600000), Some (now - 7200000), Some (now - 10800000),
                Some (now - 14400000)]"
proof -
  have run: "fst (getPersonalizedNews e ps l' 10 w)
           = getMockArticles (random e) (minted w) (clock w) ps" for ps l'
    using assms
    by (simp add: getPersonalizedNews_unconfigured mergeNews_mock getMockArticles_length)
  have tech: "\<forall>a\<in>set (getMockArticles (random e) (minted w) (clock w) [''technology'']).
             category a = ''technology''"
    by (auto dest: getMockArticles_category)
  show ?thesis
    unfolding run
    using tech getMockArticles_stable [of rnd n now prefs rnd' n' now']
      getMockArticles_times [of rnd n now prefs]
    by (auto simp: getMockArticles_length dest: getMockArticles_category)
qed

theorem unconfigured_returns_synthetic_witness:
  "length (fst (getPersonalizedNews noKeys [''general''] ''en'' 10 emptyWorld)) = 5
   \<and> ''general'' \<notin> set [''technology'']
   \<and> length (fst (getPersonalizedNews noKeys [''technology''] ''en'' 10 emptyWorld)) = 3
   \<and> map category (fst (getPersonalizedNews noKeys [''technology''] ''en'' 10 emptyWorld))
       = [''technology'', ''technology'', ''technology'']"
proof -
  have a: "\<not> truthy (newsApiKey (cfg noKeys))" and b: "\<not> truthy (gnewsApiKey (cfg noKeys))"
    by (simp_all add: noKeys_def)
  have c: "''general'' \<notin> set [''technology'']"
    by simp
  note run = unconfigured_returns_synthetic
      [where e = noKeys and w = emptyWorld and prefs = "[''technology'']" and l = "''en''"
         and rnd = sampleIds and n = 0 and now = 0 and rnd' = sampleIds and n' = 0 and now' = 0,
       OF a b]
  from run have five:
    "length (fst (getPersonalizedNews noKeys [''general''] ''en'' 10 emptyWorld)) = 5"
    by blast
  from run c have three:
    "length (fst (getPersonalizedNews noKeys [''technology''] ''en'' 10 emptyWorld)) = 3"
    by blast
  from run have tagged:
    "\<forall>a\<in>set (fst (getPersonalizedNews noKeys [''technology''] ''en'' 10 emptyWorld)).
         category a = ''technology''"
    by blast
  have "map category (fst (getPersonalizedNews noKeys [''technology''] ''en'' 10 emptyWorld))
      = replicate 3 ''technology''"
    using map_all_equal [OF tagged] three by simp
  then have "map category (fst (getPersonalizedNews noKeys [''technology''] ''en'' 10 emptyWorld))
      = [''technology'', ''technology'', ''technology'']"
    by (simp add: numeral_3_eq_3)
  with five three c show ?thesis by blast
qed

text \<open>
  C3 as stated fails in its last part: the generator reads the clock, so the same
  category list gives different articles at different times.
\<close>

theorem getMockArticles_reads_clock:
  "getMockArticles sampleIds 0 0 [''general''] \<noteq> getMockArticles sampleIds 0 1 [''general'']"
proof
  assume "getMockArticles sampleIds 0 0 [''general''] = getMockArticles sampleIds 0 1 [''general'']"
  then have "map publishedAt (getMockArticles sampleIds 0 0 [''general''])
           = map publishedAt (getMockArticles sampleIds 0 1 [''general''])"
    by simp
  then show False
    by (simp add: getMockArticles_times getMockArticles_length)
qed

text \<open>
  The properties of the merge hold for any two lists of fetched articles, so they do not
  depend on the order in which the two concurrent fetches issue their requests.
\<close>

lemma mergeNews_properties:
  assumes "0 \<le> limit"
  shows "(None \<notin> publishedAt ` set (xs @ ys) \<longrightarrow>
            sorted_wrt notOlder (fst (mergeNews e prefs limit xs ys w)))
       \<and> distinct (map url (fst (mergeNews e prefs limit xs ys w)))
       \<and> int (length (fst (mergeNews e prefs limit xs ys w))) \<le> limit"
proof -
  define zs where "zs = (if xs @ ys = []
               then getMockArticles (random e) (minted w) (clock w) prefs
               else xs @ ys)"
  have run: "fst (mergeNews e prefs limit xs ys w)
      = slice0 (sortNewestFirst (removeDuplicates zs)) limit"
    by (simp add: mergeNews_def zs_def)
  have valid: "None \<notin> publishedAt ` set zs" if "None \<notin> publishedAt ` set (xs @ ys)"
    using that getMockArticles_valid [of "random e" "minted w" "clock w" prefs]
    by (simp add: zs_def)
  show ?thesis
    unfolding run
    using pipeline_properties [OF assms(1), of zs] valid by blast
qed

text \<open>
  C4 (as amended). For every preference list, language and limit \<open>\<ge> 0\<close>, the list
  returned by \<open>getPersonalizedNews\<close> holds no URL twice, keeps for each URL the first
  article with that URL in the concatenation of the NewsAPI results followed by the GNews
  results (or in the synthetic list when both are empty), and has length at most
  \<open>limit\<close>. It is sorted non-increasing by published timestamp whenever every fetched
  article has a valid published date.
\<close>

theorem getPersonalizedNews_sorted_unique_bounded:
  assumes "0 \<le> limit"
    and "fetchFromNewsAPI e prefs l (ceilHalf limit) w = (fromA, w1)"
    and "fetchFromGNews e prefs l (ceilHalf limit) w1 = (fromB, w2)"
  shows "(None \<notin> publishedAt ` set (fromA @ fromB) \<longrightarrow>
            sorted_wrt notOlder (fst (getPersonalizedNews e prefs l limit w)))
       \<and> distinct (map url (fst (getPersonalizedNews e prefs l limit w)))
       \<and> int (length (fst (getPersonalizedNews e prefs l limit w))) \<le> limit
       \<and> (\<forall>a\<in>set (fst (getPersonalizedNews e prefs l limit w)).
            find (\<lambda>b. url b = url a)
              (if fromA @ fromB = []
               then getMockArticles (random e) (minted w2) (clock w2) prefs
               else fromA @ fromB) = Some a)"
proof -
  define xs where "xs = (if fromA @ fromB = []
               then getMockArticles (random e) (minted w2) (clock w2) prefs
               else fromA @ fromB)"
  have run: "fst (getPersonalizedNews e prefs l limit w)
      = slice0 (sortNewestFirst (removeDuplicates xs)) limit"
    using assms(2,3) by (simp add: getPersonalizedNews_def mergeNews_def xs_def)
  have valid: "None \<notin> publishedAt ` set xs" if "None \<notin> publishedAt ` set (fromA @ fromB)"
    using that getMockArticles_valid [of "random e" "minted w2" "clock w2" prefs]
    by (simp add: xs_def)
  show ?thesis
    unfolding run xs_def [symmetric]
    using pipeline_properties [OF assms(1), of xs] valid by blast
qed

lemma sameStory_dated:
  "None \<notin> publishedAt `
        set (fst (fetchFromNewsAPI sameStory [''general''] ''en'' (ceilHalf 2) emptyWorld)
             @ fst (fetchFromGNews sameStory [''general''] ''en'' (ceilHalf 2)
                 (snd (fetchFromNewsAPI sameStory [''general''] ''en'' (ceilHalf 2) emptyWorld))))"
  by (simp add: fetchFromNewsAPI_def fetchFromGNews_def fetchFrom_def
      sameStory_def cache_get_def cache_set_def emptyWorld_def axios_get_def
      formatArticles_def plainItem_def fromNewsAPI_def fromGNews_def newArticle_def
      ceilHalf_def categoryKey_def)

lemma sameStory_personalized:
  "map url (fst (getPersonalizedNews sameStory [''general''] ''en'' 2 emptyWorld))
     = [Str ''https://x.com/a'']"
  by (simp add: getPersonalizedNews_def fetchFromNewsAPI_def fetchFromGNews_def fetchFrom_def
      sameStory_def cache_get_def cache_set_def emptyWorld_def axios_get_def
      formatArticles_def plainItem_def fromNewsAPI_def fromGNews_def newArticle_def
      mergeNews_def removeDuplicates_def sortNewestFirst_def sortBy_def slice0_def
      ceilHalf_def categoryKey_def)

text \<open>
  Both providers return the story at \<open>https://x.com/a\<close>, dated: the merged list holds
  it once.
\<close>

theorem getPersonalizedNews_sorted_unique_bounded_witness:
  "(0::int) \<le> 2
   \<and> None \<notin> publishedAt `
        set (fst (fetchFromNewsAPI sameStory [''general''] ''en'' (ceilHalf 2) emptyWorld)
             @ fst (fetchFromGNews sameStory [''general''] ''en'' (ceilHalf 2)
                 (snd (fetchFromNewsAPI sameStory [''general''] ''en'' (ceilHalf 2) emptyWorld))))
   \<and> map url (fst (getPersonalizedNews sameStory [''general''] ''en'' 2 emptyWorld))
       = [Str ''https://x.com/a'']
   \<and> sorted_wrt notOlder (fst (getPersonalizedNews sameStory [''general''] ''en'' 2 emptyWorld))
   \<and> distinct (map url (fst (getPersonalizedNews sameStory [''general''] ''en'' 2 emptyWorld)))
   \<and> int (length (fst (getPersonalizedNews sameStory [''general''] ''en'' 2 emptyWorld))) \<le> 2"
proof -
  have pos: "(0::int) \<le> 2" by simp
  have a: "fetchFromNewsAPI sameStory [''general''] ''en'' (ceilHalf 2) emptyWorld
      = (fst (fetchFromNewsAPI sameStory [''general''] ''en'' (ceilHalf 2) emptyWorld),
         snd (fetchFromNewsAPI sameStory [''general''] ''en'' (ceilHalf 2) emptyWorld))"
    by simp
  have b: "fetchFromGNews sameStory [''general''] ''en'' (ceilHalf 2)
             (snd (fetchFromNewsAPI sameStory [''general''] ''en'' (ceilHalf 2) emptyWorld))
      = (fst (fetchFromGNews sameStory [''general''] ''en'' (ceilHalf 2)
               (snd (fetchFromNewsAPI sameStory [''general''] ''en'' (ceilHalf 2) emptyWorld))),
         snd (fetchFromGNews sameStory [''general''] ''en'' (ceilHalf 2)
               (snd (fetchFromNewsAPI sameStory [''general''] ''en'' (ceilHalf 2) emptyWorld))))"
    by simp
  note dated = sameStory_dated
  from pos dated sameStory_personalized getPersonalizedNews_sorted_unique_bounded [OF pos a b]
  show ?thesis by blast
qed

text \<open>
  C4 as stated fails twice. For a negative limit, \<open>slice(0, -1)\<close> drops the last of the
  five synthetic articles and returns four, which is more than the limit. And when a
  provider sends a story without a parseable date between one dated 1000 and one dated
  3000, every comparison with it answers \<open>NaN\<close>, the sort leaves the three in place,
  and the list is returned with the older story before the newer one.
\<close>

theorem getPersonalizedNews_too_long_or_unsorted:
  "\<not> int (length (fst (getPersonalizedNews noKeys [''general''] ''en'' (- 1) emptyWorld))) \<le> - 1
   \<and> map publishedAt (fst (getPersonalizedNews undated [''general''] ''en'' 10 emptyWorld))
       = [Some 1000, None, Some 3000]
   \<and> \<not> sorted_wrt notOlder
         (fst (getPersonalizedNews undated [''general''] ''en'' 10 emptyWorld))"
proof -
  have long: "\<not> int (length (fst (getPersonalizedNews noKeys [''general''] ''en'' (- 1) emptyWorld)))
      \<le> - 1"
    by (simp add: getPersonalizedNews_unconfigured noKeys_def mergeNews_def
        removeDuplicates_id getMockArticles_distinct sortNewestFirst_id getMockArticles_valid
        getMockArticles_sorted slice0_def getMockArticles_length)
  have times: "map publishedAt (fst (getPersonalizedNews undated [''general''] ''en'' 10 emptyWorld))
      = [Some 1000, None, Some 3000]"
    by (simp add: getPersonalizedNews_def fetchFromNewsAPI_def fetchFromGNews_def fetchFrom_def
        undated_def cache_get_def cache_set_def emptyWorld_def axios_get_def
        formatArticles_def plainItem_def fromNewsAPI_def newArticle_def
        mergeNews_def removeDuplicates_def sortNewestFirst_def sortBy_def compareNewest_def
        slice0_def ceilHalf_def)
  have "\<not> sorted_wrt notOlder
         (fst (getPersonalizedNews undated [''general''] ''en'' 10 emptyWorld))"
    by (simp add: getPersonalizedNews_def fetchFromNewsAPI_def fetchFromGNews_def fetchFrom_def
        undated_def cache_get_def cache_set_def emptyWorld_def axios_get_def
        formatArticles_def plainItem_def fromNewsAPI_def newArticle_def
        mergeNews_def removeDuplicates_def sortNewestFirst_def sortBy_def compareNewest_def
        slice0_def ceilHalf_def notOlder_def)
  with long times show ?thesis by blast
qed


section \<open>Search\<close>

text \<open>
  C1 fails on the code: \<open>searchNews\<close> pushes the articles of both providers and never
  calls \<open>removeDuplicates\<close>. With both providers configured and each answering the
  search with the story at \<open>https://x.com/a\<close>, the returned list holds that URL twice.
\<close>

theorem searchNews_same_url_twice:
  "map url (fst (searchNews sameStory ''x'' ''en'' 2 emptyWorld))
     = [Str ''https://x.com/a'', Str ''https://x.com/a'']"
  by (simp add: searchNews_def cache_get_def emptyWorld_def sameStory_def searchProvider_def
      axios_get_def formatArticles_def plainItem_def fromNewsAPI_def fromGNews_def
      newArticle_def cache_set_def)

lemma categoryKey_not_searchKey [simp]: "categoryKey p c l n \<noteq> searchKey kw l' n'"
  by (cases p) (simp_all add: categoryKey_def searchKey_def)

lemma searchKey_not_categoryKey [simp]: "searchKey kw l' n' \<noteq> categoryKey p c l n"
  by (cases p) (simp_all add: categoryKey_def searchKey_def)

lemma axios_get_cache: "axios_get e rq w = (r, w1) \<Longrightarrow> cache w1 = cache w"
  by (auto simp: axios_get_def split: prod.splits if_splits)

lemma formatArticles_cache: "formatArticles p e c rs w = (formatted, w1) \<Longrightarrow> cache w1 = cache w"
  by (auto simp: formatArticles_def Let_def)

lemma searchProvider_cache: "cache (snd (searchProvider p e kw l n w)) = cache w"
proof -
  obtain r w1 where ax: "axios_get e
      \<lparr> host = p, path = searchPath p, subject = kw, lang = l, amount = min n 100 \<rparr> w = (r, w1)"
    by (cases "axios_get e
      \<lparr> host = p, path = searchPath p, subject = kw, lang = l, amount = min n 100 \<rparr> w")
  then have c: "cache w1 = cache w" by (rule axios_get_cache)
  show ?thesis
  proof (cases r)
    case Throws
    then show ?thesis using ax c by (simp add: searchProvider_def)
  next
    case (Body b)
    show ?thesis
    proof (cases b)
      case None
      then show ?thesis using ax c Body by (simp add: searchProvider_def)
    next
      case (Some rs)
      obtain formatted w2 where fm: "formatArticles p e ''search'' rs w1 = (formatted, w2)"
        by (cases "formatArticles p e ''search'' rs w1")
      then have "cache w2 = cache w1" by (rule formatArticles_cache)
      then show ?thesis using ax c Body Some fm by (simp add: searchProvider_def)
    qed
  qed
qed

lemma fetchLoop_keeps_search:
  "cache (snd (fetchLoop e p l n cs acc w)) (searchKey kw l' n') = cache w (searchKey kw l' n')"
proof (induction cs arbitrary: acc w)
  case Nil
  show ?case by simp
next
  case (Cons d ds)
  show ?case
  proof (cases "cache_get w (categoryKey p d l n)")
    case (Some cached)
    then show ?thesis using Cons.IH by simp
  next
    case None
    obtain r w1 where ax: "axios_get e (topHeadlines p d l n) w = (r, w1)"
      by (cases "axios_get e (topHeadlines p d l n) w")
    then have c: "cache w1 = cache w" by (rule axios_get_cache)
    show ?thesis
    proof (cases r)
      case Throws
      then show ?thesis using None ax c by simp
    next
      case (Body b)
      show ?thesis
      proof (cases b)
        case noBody: None
        then show ?thesis using None ax c Body Cons.IH by simp
      next
        case (Some rs)
        obtain formatted w2 where fm: "formatArticles p e d rs w1 = (formatted, w2)"
          by (cases "formatArticles p e d rs w1")
        then have "cache w2 = cache w1" by (rule formatArticles_cache)
        then have "cache (cache_set e (categoryKey p d l n) formatted w2) (searchKey kw l' n')
            = cache w (searchKey kw l' n')"
          using c by (simp add: cache_set_def)
        then show ?thesis using None ax Body Some fm Cons.IH by simp
      qed
    qed
  qed
qed

lemma fetchFrom_keeps_search:
  "cache (snd (fetchFrom p e cs l n w)) (searchKey kw l' n') = cache w (searchKey kw l' n')"
proof (cases "truthy (apiKey p (cfg e))")
  case False
  then show ?thesis by (simp add: fetchFrom_def)
next
  case True
  obtain r w1 where run: "fetchLoop e p l n cs [] w = (r, w1)"
    by (cases "fetchLoop e p l n cs [] w")
  then have "cache w1 (searchKey kw l' n') = cache w (searchKey kw l' n')"
    using fetchLoop_keeps_search [of e p l n cs "[]" w kw l' n'] by simp
  then show ?thesis using True run by (cases r) (simp_all add: fetchFrom_def)
qed

lemma mergeNews_cache: "cache (snd (mergeNews e prefs limit xs ys w)) = cache w"
  by (simp add: mergeNews_def)

lemma getPersonalizedNews_keeps_search:
  "cache (snd (getPersonalizedNews e prefs l limit w)) (searchKey kw l' n')
     = cache w (searchKey kw l' n')"
proof -
  obtain xs w1 where a: "fetchFromNewsAPI e prefs l (ceilHalf limit) w = (xs, w1)"
    by (cases "fetchFromNewsAPI e prefs l (ceilHalf limit) w")
  obtain ys w2 where b: "fetchFromGNews e prefs l (ceilHalf limit) w1 = (ys, w2)"
    by (cases "fetchFromGNews e prefs l (ceilHalf limit) w1")
  have "cache w1 (searchKey kw l' n') = cache w (searchKey kw l' n')"
    using a fetchFrom_keeps_search [of NewsAPI e prefs l "ceilHalf limit" w kw l' n']
    by (simp add: fetchFromNewsAPI_def)
  moreover have "cache w2 (searchKey kw l' n') = cache w1 (searchKey kw l' n')"
    using b fetchFrom_keeps_search [of GNews e prefs l "ceilHalf limit" w1 kw l' n']
    by (simp add: fetchFromGNews_def)
  ultimately show ?thesis
    using a b by (simp add: getPersonalizedNews_def mergeNews_cache)
qed

lemma searchNews_keeps_valid:
  assumes "cache w k = Some (r, t)" and "clock w \<le> t"
  shows "cache (snd (searchNews e kw l n w)) k = Some (r, t)"
proof (cases "cache_get w (searchKey kw l n)")
  case (Some cached)
  then show ?thesis using assms(1) by (simp add: searchNews_def)
next
  case None
  then have ne: "searchKey kw l n \<noteq> k"
    using assms by (auto simp: cache_get_def)
  define s1 where "s1 = (if truthy (newsApiKey (cfg e))
                 then searchProvider NewsAPI e kw l n w else ([], w))"
  define s2 where "s2 = (if truthy (gnewsApiKey (cfg e)) \<and> int (length (fst s1)) < n
                      then searchProvider GNews e kw l (n - int (length (fst s1))) (snd s1)
                      else ([], snd s1))"
  have c1: "cache (snd s1) = cache w"
    by (simp add: s1_def searchProvider_cache)
  have c2: "cache (snd s2) = cache (snd s1)"
    by (simp add: s2_def searchProvider_cache)
  have "snd (searchNews e kw l n w)
      = cache_set e (searchKey kw l n) (fst s1 @ fst s2) (snd s2)"
    using None by (simp add: searchNews_def s1_def s2_def split: prod.splits)
  then show ?thesis
    using ne c1 c2 assms(1) by (simp add: cache_set_def)
qed

text \<open>
  C9. A call of \<open>searchNews\<close> that misses the cache stores the list it produced, empty or
  not, under the key built from keyword, language and page size, with the configured TTL
  counted from the end of the call. In every later state that still holds this entry and
  whose clock has not passed its expiry, a call with the same arguments returns that list
  and leaves the state as it is, so it issues no request. The calls of the service in
  between keep the entry: \<open>searchNews\<close> with any arguments does so until the expiry,
  and \<open>getPersonalizedNews\<close> always.
\<close>

theorem searchNews_caches_result:
  assumes "cache_get w (searchKey kw l n) = None"
    and "searchNews e kw l n w = (r, w1)"
  shows "cache w1 (searchKey kw l n) = Some (r, clock w1 + 1000 * cacheTtl (cfg e))
       \<and> (cache w2 (searchKey kw l n) = cache w1 (searchKey kw l n)
            \<and> clock w2 \<le> clock w1 + 1000 * cacheTtl (cfg e)
          \<longrightarrow> searchNews e kw l n w2 = (r, w2)
            \<and> cache (snd (searchNews e' kw' l' n' w2)) (searchKey kw l n)
                = cache w1 (searchKey kw l n)
            \<and> cache (snd (getPersonalizedNews e' prefs l' limit w2)) (searchKey kw l n)
                = cache w1 (searchKey kw l n))"
proof -
  have stored: "cache w1 (searchKey kw l n) = Some (r, clock w1 + 1000 * cacheTtl (cfg e))"
    using assms
    by (auto simp: searchNews_def cache_set_def split: prod.splits)
  have later: "searchNews e kw l n w2 = (r, w2)
            \<and> cache (snd (searchNews e' kw' l' n' w2)) (searchKey kw l n)
                = cache w1 (searchKey kw l n)
            \<and> cache (snd (getPersonalizedNews e' prefs l' limit w2)) (searchKey kw l n)
                = cache w1 (searchKey kw l n)"
    if same: "cache w2 (searchKey kw l n) = cache w1 (searchKey kw l n)"
      and early: "clock w2 \<le> clock w1 + 1000 * cacheTtl (cfg e)"
  proof (intro conjI)
    show "searchNews e kw l n w2 = (r, w2)"
      using same early stored by (simp add: searchNews_def cache_get_def)
    have held: "cache w2 (searchKey kw l n)
        = Some (r, clock w1 + 1000 * cacheTtl (cfg e))"
      using same stored by simp
    show "cache (snd (searchNews e' kw' l' n' w2)) (searchKey kw l n)
        = cache w1 (searchKey kw l n)"
      using searchNews_keeps_valid [OF held early] stored by simp
    show "cache (snd (getPersonalizedNews e' prefs l' limit w2)) (searchKey kw l n)
        = cache w1 (searchKey kw l n)"
      using same by (simp add: getPersonalizedNews_keeps_search)
  qed
  with stored show ?thesis by blast
qed

text \<open>
  Without provider keys the search produces the empty list; the second call returns the
  cached empty list and the request log stays empty.
\<close>

theorem searchNews_caches_result_witness:
  "cache_get emptyWorld (searchKey ''x'' ''en'' 20) = None
   \<and> fst (searchNews noKeys ''x'' ''en'' 20 emptyWorld) = []
   \<and> searchNews noKeys ''x'' ''en'' 20 (snd (searchNews noKeys ''x'' ''en'' 20 emptyWorld))
       = ([], snd (searchNews noKeys ''x'' ''en'' 20 emptyWorld))
   \<and> requests (snd (searchNews noKeys ''x'' ''en'' 20 emptyWorld)) = []"
proof -
  define w1 where "w1 = cache_set noKeys (searchKey ''x'' ''en'' 20) [] emptyWorld"
  have miss: "cache_get emptyWorld (searchKey ''x'' ''en'' 20) = None"
    by (simp add: cache_get_def emptyWorld_def)
  have run: "searchNews noKeys ''x'' ''en'' 20 emptyWorld = ([], w1)"
    by (simp add: searchNews_def miss noKeys_def w1_def)
  have quiet: "requests w1 = []"
    by (simp add: w1_def cache_set_def emptyWorld_def)
  have same: "cache w1 (searchKey ''x'' ''en'' 20) = cache w1 (searchKey ''x'' ''en'' 20)
      \<and> clock w1 \<le> clock w1 + 1000 * cacheTtl (cfg noKeys)"
    by (simp add: cacheTtl_def noKeys_def)
  from same searchNews_caches_result [OF miss run, where ?w2.0 = w1]
  have "searchNews noKeys ''x'' ''en'' 20 w1 = ([], w1)"
    by blast
  with miss run quiet show ?thesis by simp
qed

section \<open>A failing category\<close>

lemma categoryKey_inj [simp]: "categoryKey p c l n = categoryKey p c' l n \<longleftrightarrow> c = c'"
  by (simp add: categoryKey_def)

lemma axios_get_miss:
  assumes "cache_get w k = None" and "axios_get e rq w = (r, w1)"
  shows "cache_get w1 k = None"
proof -
  obtain d where "w1 = w\<lparr>clock := clock w + d, requests := requests w @ [rq]\<rparr>" and "0 \<le> d"
    using assms(2) by (auto simp: axios_get_def split: prod.splits if_splits)
  then show ?thesis
    using assms(1) by (auto simp: cache_get_def split: option.splits if_splits)
qed

lemma axios_get_throws:
  "snd (respond e (length (requests w)) rq) = Throws \<Longrightarrow> fst (axios_get e rq w) = Throws"
  by (auto simp: axios_get_def split: prod.splits)

lemma formatArticles_miss:
  assumes "cache_get w k = None" and "formatArticles p e c rs w = (formatted, w1)"
  shows "cache_get w1 k = None"
  using assms by (auto simp: formatArticles_def Let_def cache_get_def split: option.splits)

lemma cache_set_miss:
  assumes "cache_get w k = None" and "k' \<noteq> k"
  shows "cache_get (cache_set e k' v w) k = None"
  using assms by (auto simp: cache_set_def cache_get_def split: option.splits)

lemma fetchLoop_throws:
  assumes "c \<in> set cs"
    and "cache_get w (categoryKey p c l n) = None"
    and "\<forall>i. snd (respond e i (topHeadlines p c l n)) = Throws"
  shows "fst (fetchLoop e p l n cs acc w) = None"
  using assms
proof (induction cs arbitrary: acc w)
  case Nil
  then show ?case by simp
next
  case (Cons d ds)
  show ?case
  proof (cases "d = c")
    case True
    have "fst (axios_get e (topHeadlines p c l n) w) = Throws"
      using Cons.prems(3) by (simp add: axios_get_throws)
    then obtain w1 where "axios_get e (topHeadlines p c l n) w = (Throws, w1)"
      by (cases "axios_get e (topHeadlines p c l n) w") simp
    then show ?thesis
      using True Cons.prems(2) by simp
  next
    case False
    then have mem: "c \<in> set ds" using Cons.prems(1) by simp
    show ?thesis
    proof (cases "cache_get w (categoryKey p d l n)")
      case (Some cached)
      then show ?thesis
        using Cons.IH [OF mem Cons.prems(2) Cons.prems(3)] by simp
    next
      case None
      obtain r w1 where ax: "axios_get e (topHeadlines p d l n) w = (r, w1)"
        by (cases "axios_get e (topHeadlines p d l n) w")
      have c1: "cache_get w1 (categoryKey p c l n) = None"
        using Cons.prems(2) ax by (rule axios_get_miss)
      show ?thesis
      proof (cases r)
        case Throws
        then show ?thesis using None ax by simp
      next
        case (Body b)
        show ?thesis
        proof (cases b)
          case noBody: None
          then show ?thesis
            using None ax Body Cons.IH [OF mem c1 Cons.prems(3)] by simp
        next
          case (Some rs)
          obtain formatted w2 where fm: "formatArticles p e d rs w1 = (formatted, w2)"
            by (cases "formatArticles p e d rs w1")
          have "cache_get w2 (categoryKey p c l n) = None"
            using c1 fm by (rule formatArticles_miss)
          then have "cache_get (cache_set e (categoryKey p d l n) formatted w2)
                       (categoryKey p c l n) = None"
            using False by (simp add: cache_set_miss)
          then show ?thesis
            using None ax Body Some fm Cons.IH [OF mem _ Cons.prems(3)] by simp
        qed
      qed
    qed
  qed
qed

text \<open>
  C2 (as amended). For a configured provider, if one of the requested categories is not
  cached and the external request for it fails (it throws: timeout, status outside 2xx,
  a body whose articles cannot be processed), the category-based fetch catches the
  failure and returns the empty list: the articles accumulated for the other categories
  are not returned. This holds for \<open>fetchFromNewsAPI\<close> and \<open>fetchFromGNews\<close> alike.
\<close>

theorem failed_category_empties_fetch:
  assumes "truthy (apiKey p (cfg e))"
    and "c \<in> set cs"
    and "cache_get w (categoryKey p c l n) = None"
    and "\<forall>i. snd (respond e i (topHeadlines p c l n)) = Throws"
  shows "fst (fetchFrom p e cs l n w) = []
       \<and> (p = NewsAPI \<longrightarrow> fst (fetchFromNewsAPI e cs l n w) = [])
       \<and> (p = GNews \<longrightarrow> fst (fetchFromGNews e cs l n w) = [])"
proof -
  have "fst (fetchLoop e p l n cs [] w) = None"
    using assms(2-4) by (rule fetchLoop_throws)
  then obtain w' where "fetchLoop e p l n cs [] w = (None, w')"
    by (cases "fetchLoop e p l n cs [] w") simp
  then have "fst (fetchFrom p e cs l n w) = []"
    using assms(1) by (simp add: fetchFrom_def)
  then show ?thesis
    by (auto simp: fetchFromNewsAPI_def fetchFromGNews_def)
qed

theorem failed_category_empties_fetch_witness:
  "truthy (apiKey NewsAPI (cfg sportsDown))
   \<and> ''sports'' \<in> set [''general'', ''sports'']
   \<and> cache_get emptyWorld (categoryKey NewsAPI ''sports'' ''en'' 10) = None
   \<and> (\<forall>i. snd (respond sportsDown i (topHeadlines NewsAPI ''sports'' ''en'' 10)) = Throws)
   \<and> fst (fetchFromNewsAPI sportsDown [''general'', ''sports''] ''en'' 10 emptyWorld) = []"
proof -
  have k: "truthy (apiKey NewsAPI (cfg sportsDown))"
    by (simp add: sportsDown_def)
  have m: "''sports'' \<in> set [''general'', ''sports'']"
    by simp
  have c: "cache_get emptyWorld (categoryKey NewsAPI ''sports'' ''en'' 10) = None"
    by (simp add: cache_get_def emptyWorld_def)
  have t: "\<forall>i. snd (respond sportsDown i (topHeadlines NewsAPI ''sports'' ''en'' 10)) = Throws"
    by (simp add: sportsDown_def topHeadlines_def)
  from k m c t failed_category_empties_fetch [OF k m c t]
  show ?thesis by blast
qed

text \<open>
  C2 as stated fails: fetched alone, the category \<open>general\<close> yields an article; fetched
  together with \<open>sports\<close>, whose request times out, the article accumulated for
  \<open>general\<close> is discarded and the fetch returns the empty list.
\<close>

theorem fetchFromNewsAPI_discards_accumulated:
  "map url (fst (fetchFromNewsAPI sportsDown [''general''] ''en'' 10 emptyWorld))
     = [Str ''https://x.com/a'']
   \<and> fst (fetchFromNewsAPI sportsDown [''general'', ''sports''] ''en'' 10 emptyWorld) = []"
  by (simp add: fetchFromNewsAPI_def fetchFrom_def sportsDown_def cache_get_def cache_set_def
      emptyWorld_def axios_get_def topHeadlines_def formatArticles_def plainItem_def
      fromNewsAPI_def newArticle_def)

end
